theory Spec2Isabelle
  imports Complex_Main
begin

section \<open>JavaScript strings\<close>

text \<open>
  A JavaScript string is modelled as a \<open>string\<close> (a list of 8-bit characters), every
  character standing for one UTF-16 code unit below 256. Within that range the white space
  that \<open>trim\<close> and the numeric conversions skip is TAB, LF, VT, FF, CR, SPACE and
  NO-BREAK SPACE, and the line terminators that a regular expression's \<open>.\<close> refuses
  are LF and CR.
\<close>

definition isWhiteSpace :: "char \<Rightarrow> bool" where
  "isWhiteSpace c \<longleftrightarrow> c \<in> set [CHR 0x09, CHR 0x0A, CHR 0x0B, CHR 0x0C, CHR 0x0D, CHR 0x20, CHR 0xA0]"

definition isLineTerminator :: "char \<Rightarrow> bool" where
  "isLineTerminator c \<longleftrightarrow> c = CHR 0x0A \<or> c = CHR 0x0D"

definition isDigit :: "char \<Rightarrow> bool" where
  "isDigit c \<longleftrightarrow> c \<in> set ''0123456789''"

definition trimStart :: "string \<Rightarrow> string" where
  "trimStart s = dropWhile isWhiteSpace s"

definition trim :: "string \<Rightarrow> string" where
  "trim s = rev (dropWhile isWhiteSpace (rev (dropWhile isWhiteSpace s)))"

text \<open>
  \<open>str.split(sep)\<close> for a one-character separator: the pieces between the separators,
  empty pieces included, so the result is never the empty list. (The \<open>[]\<close> branch of
  the \<open>case\<close> is not reachable.)
\<close>

fun split :: "char \<Rightarrow> string \<Rightarrow> string list" where
  "split sep [] = [[]]"
| "split sep (c # cs) =
     (if c = sep then [] # split sep cs
      else (case split sep cs of [] \<Rightarrow> [[c]] | p # ps \<Rightarrow> (c # p) # ps))"

text \<open>\<open>pieces.join(sep)\<close> for a one-character separator.\<close>

fun joinChar :: "char \<Rightarrow> string list \<Rightarrow> string" where
  "joinChar sep [] = []"
| "joinChar sep [x] = x"
| "joinChar sep (x # y # r) = x @ sep # joinChar sep (y # r)"

text \<open>\<open>str.slice(0, n)\<close> is \<open>take n\<close>; \<open>str.padStart(n, pad)\<close>:\<close>

definition padStart :: "nat \<Rightarrow> string \<Rightarrow> string \<Rightarrow> string" where
  "padStart n pad s =
     (if n \<le> length s \<or> pad = [] then s
      else take (n - length s) (concat (replicate (n - length s) pad)) @ s)"

text \<open>\<open>s.startsWith(p)\<close> with the rest of the string after the prefix.\<close>

fun stripPrefix :: "string \<Rightarrow> string \<Rightarrow> string option" where
  "stripPrefix [] s = Some s"
| "stripPrefix (p # ps) [] = None"
| "stripPrefix (p # ps) (c # cs) = (if p = c then stripPrefix ps cs else None)"


section \<open>JavaScript numbers\<close>

text \<open>
  A JavaScript number is \<open>NaN\<close>, an infinity or a finite IEEE 754 double. A finite double
  is kept as the rational number it is. The sign of zero is not kept: the two zeros compare
  equal and print alike, and nothing below divides by a zero.
\<close>

datatype jsnum = NaN | NegInf | Fin rat | PosInf

definition isNaN :: "jsnum \<Rightarrow> bool" where
  "isNaN x \<longleftrightarrow> x = NaN"

subsection \<open>Rounding to a double\<close>

text \<open>
  Every arithmetic result and every literal is the exact value rounded to the nearest
  double, a tie going to the even mantissa, and to an infinity from \<open>2^1024\<close> on. The
  doubles between \<open>2^e\<close> and \<open>2^(e+1)\<close> are the multiples of \<open>2^(e-52)\<close>, where \<open>e\<close> is at
  least -1022 (below \<open>2^(-1022)\<close> the spacing stays \<open>2^(-1074)\<close>) and at most 1023.
  A literal is converted as V8 does, by rounding its exact value (the language lets an
  implementation cut a literal of more than 20 significant digits to 20 first).
\<close>

definition pow2 :: "int \<Rightarrow> rat" where
  "pow2 e = (if 0 \<le> e then 2 ^ nat e else 1 / 2 ^ nat (- e))"

definition roundHalfEven :: "rat \<Rightarrow> int" where
  "roundHalfEven x =
     (let f = \<lfloor>x\<rfloor>; r = x - of_int f
      in if r < 1 / 2 then f else if 1 / 2 < r then f + 1 else if even f then f else f + 1)"

text \<open>The exponent of the spacing at a positive value: the greatest \<open>e\<close> of the range with \<open>2^e \<le> a\<close>.\<close>

definition binade :: "rat \<Rightarrow> int" where
  "binade a = Max (insert (- 1022) {e \<in> {- 1022 .. 1023}. pow2 e \<le> a})"

definition fl :: "rat \<Rightarrow> jsnum" where
  "fl q =
     (if q = 0 then Fin 0
      else
        let a = \<bar>q\<bar>;
            u = pow2 (binade a - 52);
            r = of_int (roundHalfEven (a / u)) * u
        in if pow2 1024 \<le> r then (if 0 < q then PosInf else NegInf)
           else Fin (if 0 < q then r else - r))"

subsection \<open>Arithmetic and comparisons\<close>

fun js_neg :: "jsnum \<Rightarrow> jsnum" where
  "js_neg NaN = NaN"
| "js_neg NegInf = PosInf"
| "js_neg PosInf = NegInf"
| "js_neg (Fin q) = Fin (- q)"

fun js_add :: "jsnum \<Rightarrow> jsnum \<Rightarrow> jsnum" where
  "js_add NaN y = NaN"
| "js_add x NaN = NaN"
| "js_add (Fin a) (Fin b) = fl (a + b)"
| "js_add (Fin a) y = y"
| "js_add x (Fin b) = x"
| "js_add PosInf PosInf = PosInf"
| "js_add NegInf NegInf = NegInf"
| "js_add PosInf NegInf = NaN"
| "js_add NegInf PosInf = NaN"

definition inf_of_sign :: "bool \<Rightarrow> jsnum" where
  "inf_of_sign positive = (if positive then PosInf else NegInf)"

fun js_mul :: "jsnum \<Rightarrow> jsnum \<Rightarrow> jsnum" where
  "js_mul NaN y = NaN"
| "js_mul x NaN = NaN"
| "js_mul (Fin a) (Fin b) = fl (a * b)"
| "js_mul (Fin a) y = (if a = 0 then NaN else inf_of_sign ((0 < a) = (y = PosInf)))"
| "js_mul x (Fin b) = (if b = 0 then NaN else inf_of_sign ((0 < b) = (x = PosInf)))"
| "js_mul x y = inf_of_sign (x = y)"

text \<open>\<open>x / y\<close>; a zero divisor is taken as the positive zero.\<close>

fun js_div :: "jsnum \<Rightarrow> jsnum \<Rightarrow> jsnum" where
  "js_div NaN y = NaN"
| "js_div x NaN = NaN"
| "js_div (Fin a) (Fin b) =
     (if b = 0 then (if a = 0 then NaN else inf_of_sign (0 < a)) else fl (a / b))"
| "js_div (Fin a) y = Fin 0"
| "js_div x (Fin b) = inf_of_sign ((0 \<le> b) = (x = PosInf))"
| "js_div x y = NaN"

text \<open>
  \<open>x % y\<close>: the remainder of the division truncated towards zero. It is a double whenever
  \<open>x\<close> and \<open>y\<close> are, so nothing is rounded.
\<close>

definition towardsZero :: "rat \<Rightarrow> int" where
  "towardsZero x = (if 0 \<le> x then \<lfloor>x\<rfloor> else \<lceil>x\<rceil>)"

fun js_mod :: "jsnum \<Rightarrow> jsnum \<Rightarrow> jsnum" where
  "js_mod NaN y = NaN"
| "js_mod x NaN = NaN"
| "js_mod (Fin a) (Fin b) = (if b = 0 then NaN else Fin (a - b * of_int (towardsZero (a / b))))"
| "js_mod (Fin a) y = Fin a"
| "js_mod x y = NaN"

text \<open>\<open>Math.floor\<close>; the floor of a double is a double.\<close>

fun Math_floor :: "jsnum \<Rightarrow> jsnum" where
  "Math_floor (Fin q) = Fin (of_int \<lfloor>q\<rfloor>)"
| "Math_floor x = x"

text \<open>\<open>x > y\<close>: false as soon as one side is \<open>NaN\<close>.\<close>

fun js_gt :: "jsnum \<Rightarrow> jsnum \<Rightarrow> bool" where
  "js_gt NaN y = False"
| "js_gt x NaN = False"
| "js_gt (Fin a) (Fin b) = (b < a)"
| "js_gt PosInf y = (y \<noteq> PosInf)"
| "js_gt x NegInf = (x \<noteq> NegInf)"
| "js_gt x y = False"

text \<open>\<open>x >= y\<close>: false as soon as one side is \<open>NaN\<close>.\<close>

fun js_ge :: "jsnum \<Rightarrow> jsnum \<Rightarrow> bool" where
  "js_ge NaN y = False"
| "js_ge x NaN = False"
| "js_ge PosInf y = True"
| "js_ge x NegInf = True"
| "js_ge NegInf y = False"
| "js_ge x PosInf = False"
| "js_ge (Fin a) (Fin b) = (b \<le> a)"

text \<open>\<open>Math.round\<close>: the nearest integer, a tie going up; that integer is a double.\<close>

fun Math_round :: "jsnum \<Rightarrow> jsnum" where
  "Math_round (Fin q) = Fin (of_int \<lfloor>q + 1 / 2\<rfloor>)"
| "Math_round x = x"

subsection \<open>Numeric literals\<close>

definition digitVal :: "char \<Rightarrow> nat" where
  "digitVal c = of_char c - 48"

definition hexVal :: "char \<Rightarrow> nat option" where
  "hexVal c =
     (if isDigit c then Some (of_char c - 48)
      else if c \<in> set ''abcdef'' then Some (of_char c - 87)
      else if c \<in> set ''ABCDEF'' then Some (of_char c - 55)
      else None)"

text \<open>The value of a digit string in a base; \<open>None\<close> when a character is no digit of the base.\<close>

fun radixVal :: "nat \<Rightarrow> nat \<Rightarrow> string \<Rightarrow> nat option" where
  "radixVal b acc [] = Some acc"
| "radixVal b acc (c # cs) =
     (case hexVal c of
        None \<Rightarrow> None
      | Some d \<Rightarrow> if d < b then radixVal b (b * acc + d) cs else None)"

definition digitsVal :: "string \<Rightarrow> nat" where
  "digitsVal ds = foldl (\<lambda>acc c. 10 * acc + digitVal c) 0 ds"

definition pow10 :: "int \<Rightarrow> rat" where
  "pow10 e = (if 0 \<le> e then 10 ^ nat e else 1 / 10 ^ nat (- e))"

text \<open>
  \<open>ExponentPart\<close>, read at the end of a literal: nothing (exponent 0), or \<open>e\<close>/\<open>E\<close>,
  an optional sign and at least one digit, with nothing after.
\<close>

definition signedDigits :: "string \<Rightarrow> int option" where
  "signedDigits s =
     (let (neg, ds) = (case s of
                         c # r \<Rightarrow> if c = CHR ''-'' then (True, r)
                                  else if c = CHR ''+'' then (False, r) else (False, s)
                       | [] \<Rightarrow> (False, s))
      in if ds \<noteq> [] \<and> list_all isDigit ds
         then Some (if neg then - int (digitsVal ds) else int (digitsVal ds))
         else None)"

definition ExponentPart :: "string \<Rightarrow> int option" where
  "ExponentPart s =
     (case s of
        [] \<Rightarrow> Some 0
      | c # r \<Rightarrow> if c = CHR ''e'' \<or> c = CHR ''E'' then signedDigits r else None)"

text \<open>
  \<open>StrUnsignedDecimalLiteral\<close>: \<open>Infinity\<close>, or digits with an optional fraction and an
  optional exponent, where the integer part or the fraction has at least one digit. The
  value is the mathematical value of the literal, rounded to a double.
\<close>

definition StrUnsignedDecimalLiteral :: "string \<Rightarrow> jsnum option" where
  "StrUnsignedDecimalLiteral s =
     (if s = ''Infinity'' then Some PosInf
      else
        let ip = takeWhile isDigit s;
            r1 = dropWhile isDigit s;
            (fp, r2) = (case r1 of
                          [] \<Rightarrow> ([], r1)
                        | c # t \<Rightarrow> if c = CHR ''.'' then (takeWhile isDigit t, dropWhile isDigit t)
                                   else ([], r1))
        in if ip = [] \<and> fp = [] then None
           else (case ExponentPart r2 of
                   None \<Rightarrow> None
                 | Some e \<Rightarrow>
                     Some (fl ((of_nat (digitsVal ip) + of_nat (digitsVal fp) / 10 ^ length fp)
                                * pow10 e))))"

definition StrDecimalLiteral :: "string \<Rightarrow> jsnum option" where
  "StrDecimalLiteral s =
     (case s of
        [] \<Rightarrow> None
      | c # r \<Rightarrow> if c = CHR ''+'' then StrUnsignedDecimalLiteral r
                 else if c = CHR ''-'' then map_option js_neg (StrUnsignedDecimalLiteral r)
                 else StrUnsignedDecimalLiteral s)"

text \<open>\<open>NonDecimalIntegerLiteral\<close>: \<open>0x\<close>, \<open>0o\<close> or \<open>0b\<close> (either case) and at least one digit of the base.\<close>

definition NonDecimalIntegerLiteral :: "string \<Rightarrow> nat option" where
  "NonDecimalIntegerLiteral s =
     (case s of
        z # p # ds \<Rightarrow>
          if z = CHR ''0'' \<and> ds \<noteq> [] then
            (if p = CHR ''x'' \<or> p = CHR ''X'' then radixVal 16 0 ds
             else if p = CHR ''o'' \<or> p = CHR ''O'' then radixVal 8 0 ds
             else if p = CHR ''b'' \<or> p = CHR ''B'' then radixVal 2 0 ds
             else None)
          else None
      | _ \<Rightarrow> None)"

text \<open>
  \<open>Number(str)\<close> on a string (the specification's StringToNumber): white space is trimmed,
  the empty string is 0, a numeric literal has its value, everything else is \<open>NaN\<close>.
\<close>

definition Number :: "string \<Rightarrow> jsnum" where
  "Number str =
     (let s = trim str
      in if s = [] then Fin 0
         else (case NonDecimalIntegerLiteral s of
                 Some n \<Rightarrow> fl (of_nat n)
               | None \<Rightarrow> (case StrDecimalLiteral s of Some v \<Rightarrow> v | None \<Rightarrow> NaN)))"



text \<open>
  The decimal digits of a non-negative integer (\<open>digitChar\<close> is only applied below 10).
\<close>

definition digitChar :: "nat \<Rightarrow> char" where
  "digitChar d = ''0123456789'' ! d"

fun String_nat :: "nat \<Rightarrow> string" where
  "String_nat n = (if n < 10 then [digitChar n] else String_nat (n div 10) @ [digitChar (n mod 10)])"

declare String_nat.simps [simp del]

text \<open>
  \<open>String(x)\<close> for a number. An integer of magnitude below \<open>2^53\<close> prints as its decimal
  digits, after a minus sign when negative. Every other finite double prints as the
  shortest digits that read back as the same double, in positional or exponent notation;
  that part of the language is not written out, it is the parameter \<open>shortest\<close>.
\<close>

definition String_num :: "(rat \<Rightarrow> string) \<Rightarrow> jsnum \<Rightarrow> string" where
  "String_num shortest x =
     (case x of
        NaN \<Rightarrow> ''NaN''
      | PosInf \<Rightarrow> ''Infinity''
      | NegInf \<Rightarrow> ''-Infinity''
      | Fin q \<Rightarrow>
          if q = of_int \<lfloor>q\<rfloor> \<and> \<bar>q\<bar> < 2 ^ 53
          then (if q < 0 then ''-'' @ String_nat (nat (- \<lfloor>q\<rfloor>)) else String_nat (nat \<lfloor>q\<rfloor>))
          else shortest q)"


section \<open>utils.ts: helpers\<close>

text \<open>\<open>formatDuration(secs)\<close>.\<close>

definition formatDuration :: "(rat \<Rightarrow> string) \<Rightarrow> jsnum \<Rightarrow> string" where
  "formatDuration shortest secs =
     (let h = Math_floor (js_div secs (Fin 3600));
          m = Math_floor (js_div (js_mod secs (Fin 3600)) (Fin 60));
          s = Math_floor (js_mod secs (Fin 60))
      in if js_gt h (Fin 0)
         then String_num shortest h @ '':'' @ padStart 2 ''0'' (String_num shortest m) @ '':''
                @ padStart 2 ''0'' (String_num shortest s)
         else padStart 2 ''0'' (String_num shortest m) @ '':'' @ padStart 2 ''0'' (String_num shortest s))"

text \<open>
  \<open>parseTimeToSeconds(str)\<close>; \<open>None\<close> is \<open>null\<close>. No operation of the body can throw on a
  string, so the function has no error result.
\<close>

definition parseTimeToSeconds :: "string \<Rightarrow> jsnum option" where
  "parseTimeToSeconds str =
     (if trim str = [] then None
      else
        let parts = map Number (split CHR '':'' (trim str))
        in if list_ex isNaN parts then None
           else if length parts = 3
             then Some (js_add (js_add (js_mul (parts ! 0) (Fin 3600)) (js_mul (parts ! 1) (Fin 60)))
                          (parts ! 2))
           else if length parts = 2
             then Some (js_add (js_mul (parts ! 0) (Fin 60)) (parts ! 1))
           else Some (parts ! 0))"


text \<open>
  \<open>parseFloat(str)\<close>: leading white space is skipped and the longest prefix that is a
  decimal literal is read and rounded to a double; \<open>NaN\<close> when there is none.
\<close>

definition takeSign :: "string \<Rightarrow> bool \<times> string" where
  "takeSign s =
     (case s of
        [] \<Rightarrow> (False, s)
      | c # r \<Rightarrow> if c = CHR ''-'' then (True, r) else if c = CHR ''+'' then (False, r) else (False, s))"

definition exponentPrefix :: "string \<Rightarrow> int" where
  "exponentPrefix s =
     (case s of
        [] \<Rightarrow> 0
      | c # r \<Rightarrow>
          if c = CHR ''e'' \<or> c = CHR ''E'' then
            (let (neg, ds0) = takeSign r; ds = takeWhile isDigit ds0
             in if ds = [] then 0 else if neg then - int (digitsVal ds) else int (digitsVal ds))
          else 0)"

definition parseFloat :: "string \<Rightarrow> jsnum" where
  "parseFloat str =
     (let (neg, u) = takeSign (trimStart str)
      in if stripPrefix ''Infinity'' u \<noteq> None then (if neg then NegInf else PosInf)
         else
           let ip = takeWhile isDigit u;
               r1 = dropWhile isDigit u;
               (fp, r2) = (case r1 of
                             [] \<Rightarrow> ([], r1)
                           | c # t \<Rightarrow> if c = CHR ''.'' then (takeWhile isDigit t, dropWhile isDigit t)
                                      else ([], r1))
           in if ip = [] \<and> fp = [] then NaN
              else
                let v = fl ((of_nat (digitsVal ip) + of_nat (digitsVal fp) / 10 ^ length fp)
                             * pow10 (exponentPrefix r2))
                in if neg then js_neg v else v)"


section \<open>The host: paths, the file system, external processes\<close>

text \<open>
  \<open>path.join\<close>, \<open>os.homedir\<close> and the behaviour of the programs that \<open>execa\<close> runs are
  not code of the extension: they are parameters. The file system is what \<open>existsSync\<close>
  answers; it changes only through the processes that the extension runs. A process, run
  on a file system, emits chunks of output on its merged stdout and stderr, then either
  exits with status 0 or makes \<open>await proc\<close> throw (\<open>failure\<close> is \<open>String(e)\<close> of the
  error thrown), and leaves a file system behind. The environment variables that the
  extension passes to \<open>execa\<close> are left out.
\<close>

type_synonym filesystem = "string \<Rightarrow> bool"

record proc =
  chunks :: "string list"
  failure :: "string option"
  fs_after :: filesystem

record host =
  join :: "string list \<Rightarrow> string"
  homedir :: string
  execa :: "string \<Rightarrow> string list \<Rightarrow> filesystem \<Rightarrow> proc"

text \<open>The world: the file system, and the list of the \<open>execa\<close> calls made so far.\<close>

record world =
  fs :: filesystem
  spawned :: "(string \<times> string list) list"

definition spawn :: "host \<Rightarrow> string \<Rightarrow> string list \<Rightarrow> world \<Rightarrow> proc \<times> world" where
  "spawn h file args w =
     (let p = execa h file args (fs w)
      in (p, \<lparr>fs = fs_after p, spawned = spawned w @ [(file, args)]\<rparr>))"

text \<open>A string or \<open>null\<close>/\<open>undefined\<close> in a boolean position: only a non-empty string is truthy.\<close>

definition truthy :: "string option \<Rightarrow> bool" where
  "truthy v = (case v of None \<Rightarrow> False | Some s \<Rightarrow> s \<noteq> [])"

text \<open>\<open>v || d\<close> for such a value.\<close>

definition orElse :: "string option \<Rightarrow> string \<Rightarrow> string" where
  "orElse v d = (case v of None \<Rightarrow> d | Some s \<Rightarrow> if s = [] then d else s)"


section \<open>utils.ts: binary resolution\<close>

definition BREW_PATHS :: "string list" where
  "BREW_PATHS = [''/opt/homebrew/bin'', ''/usr/local/bin'', ''/usr/bin'']"

text \<open>The \<open>for\<close> loop of \<open>getBinPath\<close> over the directories that remain.\<close>

fun getBinPath_from :: "host \<Rightarrow> filesystem \<Rightarrow> string list \<Rightarrow> string \<Rightarrow> string option" where
  "getBinPath_from h existsSync [] name = None"
| "getBinPath_from h existsSync (dir # dirs) name =
     (let full = join h [dir, name]
      in if existsSync full then Some full else getBinPath_from h existsSync dirs name)"

definition getBinPath :: "host \<Rightarrow> filesystem \<Rightarrow> string \<Rightarrow> string option" where
  "getBinPath h existsSync name = getBinPath_from h existsSync BREW_PATHS name"

definition getBrewPath :: "host \<Rightarrow> filesystem \<Rightarrow> string option" where
  "getBrewPath h existsSync = getBinPath h existsSync ''brew''"

record DepsStatus =
  brew :: bool
  ytdlp :: bool
  ffmpeg :: bool
  brewPath :: "string option"
  ytdlpPath :: "string option"
  ffmpegPath :: "string option"

definition checkDeps :: "host \<Rightarrow> filesystem \<Rightarrow> DepsStatus" where
  "checkDeps h existsSync =
     \<lparr>brew = truthy (getBrewPath h existsSync),
      ytdlp = truthy (getBinPath h existsSync ''yt-dlp''),
      ffmpeg = truthy (getBinPath h existsSync ''ffmpeg''),
      brewPath = getBrewPath h existsSync,
      ytdlpPath = getBinPath h existsSync ''yt-dlp'',
      ffmpegPath = getBinPath h existsSync ''ffmpeg''\<rparr>"


section \<open>utils.ts: installing\<close>

text \<open>
  The \<open>data\<close> handler that \<open>brewInstall\<close> and \<open>installHomebrew\<close> both register:
  \<open>chunk.toString().split("\n").filter(Boolean).forEach((l) => onLine(l.trim().slice(0, 100)))\<close>.
  The callback \<open>onLine\<close> acts on a state of the caller.
\<close>

definition nonEmptyLines :: "string \<Rightarrow> string list" where
  "nonEmptyLines chunk = filter (\<lambda>l. l \<noteq> []) (split CHR 0x0A chunk)"

definition install_onData :: "(string \<Rightarrow> 's \<Rightarrow> 's) \<Rightarrow> string \<Rightarrow> 's \<Rightarrow> 's" where
  "install_onData onLine chunk st = fold (\<lambda>l. onLine (take 100 (trim l))) (nonEmptyLines chunk) st"

text \<open>
  Both installers return what \<open>await\<close> on them gives: \<open>None\<close> when they resolve, \<open>Some\<close>
  of the rendering \<open>String(e)\<close> of the error when they throw.
\<close>

definition brewInstall ::
  "host \<Rightarrow> string \<Rightarrow> (string \<Rightarrow> 's \<Rightarrow> 's) \<Rightarrow> world \<times> 's \<Rightarrow> string option \<times> world \<times> 's" where
  "brewInstall h pkg onLine ws =
     (let (w, st) = ws
      in if \<not> truthy (getBrewPath h (fs w)) then (Some ''Error: Homebrew not found'', w, st)
         else
           let (p, w') = spawn h (the (getBrewPath h (fs w))) [''install'', pkg] w
           in (failure p, w', fold (install_onData onLine) (chunks p) st))"

definition homebrewScript :: string where
  "homebrewScript = ''$(curl -fsSL https://raw.githubusercontent.com/Homebrew/install/HEAD/install.sh)''"

definition installHomebrew ::
  "host \<Rightarrow> (string \<Rightarrow> 's \<Rightarrow> 's) \<Rightarrow> world \<times> 's \<Rightarrow> string option \<times> world \<times> 's" where
  "installHomebrew h onLine ws =
     (let (w, st) = ws;
          (p, w') = spawn h ''/bin/bash'' [''-c'', homebrewScript] w
      in (failure p, w', fold (install_onData onLine) (chunks p) st))"


section \<open>utils.ts: download\<close>

record DownloadOptions =
  url :: string
  startTime :: "string option"
  endTime :: "string option"
  format :: string
  quality :: "string option"

definition outDir :: "host \<Rightarrow> string" where
  "outDir h = join h [homedir h, ''Downloads'', ''clipity'']"

text \<open>The argument list that \<open>downloadVideo\<close> builds, given the path of ffmpeg.\<close>

definition downloadArgs :: "host \<Rightarrow> string \<Rightarrow> DownloadOptions \<Rightarrow> string list" where
  "downloadArgs h ffmpegBin opts =
     (let args = [''--no-playlist'', ''--newline'', ''-o'', join h [outDir h, ''%(title)s.%(ext)s''],
                  ''--ffmpeg-location'', join h [ffmpegBin, ''..'']];
          args = (if format opts = ''audio''
                  then args @ [''-x'', ''--audio-format'', ''mp3'', ''--audio-quality'', ''0'']
                  else
                    let hq = (if truthy (quality opts) \<and> quality opts \<noteq> Some ''best''
                              then ''[height<='' @ the (quality opts) @ '']'' else [])
                    in args @ [''-f'',
                               ''bestvideo'' @ hq @ ''[ext=mp4]+bestaudio[ext=m4a]/best'' @ hq
                                 @ ''[ext=mp4]/best'',
                               ''--merge-output-format'', ''mp4'']);
          hasStart = (truthy (startTime opts) \<and> startTime opts \<noteq> Some ''00:00'');
          hasEnd = truthy (endTime opts);
          args = (if hasStart \<or> hasEnd
                  then
                    let s = orElse (startTime opts) ''0'';
                        e = orElse (endTime opts) ''inf''
                    in args @ [''--download-sections'', ''*'' @ s @ ''-'' @ e,
                               ''--force-keyframes-at-cuts'']
                  else args)
      in args @ [url opts])"

subsection \<open>The three regular expressions\<close>

text \<open>
  \<open>line.match(re)\<close> for a regular expression without flags tries the start positions from
  left to right and returns the first match; the functions below return its capture group.

  \<open>/(\d+\.?\d*)%/\<close> at one position: the longest run of digits, not empty, then either
  \<open>%\<close>, or a dot, the longest run of digits and \<open>%\<close>. (No shorter choice of the greedy
  parts can match where this one does not.)
\<close>

definition pctAt :: "string \<Rightarrow> string option" where
  "pctAt s =
     (let d1 = takeWhile isDigit s; r1 = dropWhile isDigit s
      in if d1 = [] then None
         else (case r1 of
                 [] \<Rightarrow> None
               | c # r2 \<Rightarrow>
                   if c = CHR ''%'' then Some d1
                   else if c = CHR ''.'' then
                     (case dropWhile isDigit r2 of
                        [] \<Rightarrow> None
                      | c' # _ \<Rightarrow> if c' = CHR ''%'' then Some (d1 @ ''.'' @ takeWhile isDigit r2)
                                  else None)
                   else None))"

fun pctMatch :: "string \<Rightarrow> string option" where
  "pctMatch [] = None"
| "pctMatch (c # cs) = (case pctAt (c # cs) of Some cap \<Rightarrow> Some cap | None \<Rightarrow> pctMatch cs)"

text \<open>
  \<open>/\[download\] Destination: (.+)/\<close> at one position: the literal text, then the longest
  run of characters that are no line terminators, not empty.
\<close>

definition destAt :: "string \<Rightarrow> string option" where
  "destAt s =
     (case stripPrefix ''[download] Destination: '' s of
        None \<Rightarrow> None
      | Some rest \<Rightarrow>
          let cap = takeWhile (\<lambda>c. \<not> isLineTerminator c) rest
          in if cap = [] then None else Some cap)"

fun matchDestination :: "string \<Rightarrow> string option" where
  "matchDestination [] = None"
| "matchDestination (c # cs) =
     (case destAt (c # cs) of Some cap \<Rightarrow> Some cap | None \<Rightarrow> matchDestination cs)"

text \<open>
  \<open>/\[Merger\] Merging formats into "(.+)"/\<close> at one position: the literal text, then, in
  the run of characters up to the first line terminator, everything before the last
  double quote, which must not be empty.
\<close>

definition mergerAt :: "string \<Rightarrow> string option" where
  "mergerAt s =
     (case stripPrefix (''[Merger] Merging formats into '' @ [CHR 0x22]) s of
        None \<Rightarrow> None
      | Some rest \<Rightarrow>
          let run = takeWhile (\<lambda>c. \<not> isLineTerminator c) rest
          in (case dropWhile (\<lambda>c. c \<noteq> CHR 0x22) (rev run) of
                [] \<Rightarrow> None
              | q # before \<Rightarrow> if before = [] then None else Some (rev before)))"

fun matchMerger :: "string \<Rightarrow> string option" where
  "matchMerger [] = None"
| "matchMerger (c # cs) =
     (case mergerAt (c # cs) of Some cap \<Rightarrow> Some cap | None \<Rightarrow> matchMerger cs)"

text \<open>\<open>line.match(destination) || line.match(merger)\<close>: the capture of the match kept.\<close>

definition destMatch :: "string \<Rightarrow> string option" where
  "destMatch line =
     (case matchDestination line of Some cap \<Rightarrow> Some cap | None \<Rightarrow> matchMerger line)"

subsection \<open>Scanning the output\<close>

text \<open>
  The body of the \<open>for\<close> loop of the \<open>data\<close> handler, for one line. The state is
  \<open>lastFile\<close> and the state of the caller on which \<open>onProgress\<close> acts.
\<close>

definition download_onLine ::
  "(jsnum \<Rightarrow> string \<Rightarrow> 's \<Rightarrow> 's) \<Rightarrow> string \<Rightarrow> string \<times> 's \<Rightarrow> string \<times> 's" where
  "download_onLine onProgress line acc =
     (let (lastFile, st) = acc;
          st = (case pctMatch line of
                  Some cap \<Rightarrow> onProgress (Math_round (parseFloat cap)) line st
                | None \<Rightarrow> st);
          lastFile = (case destMatch line of Some cap \<Rightarrow> trim cap | None \<Rightarrow> lastFile)
      in (lastFile, st))"

definition download_onData ::
  "(jsnum \<Rightarrow> string \<Rightarrow> 's \<Rightarrow> 's) \<Rightarrow> string \<Rightarrow> string \<times> 's \<Rightarrow> string \<times> 's" where
  "download_onData onProgress chunk acc = fold (download_onLine onProgress) (nonEmptyLines chunk) acc"

text \<open>
  \<open>downloadVideo(opts)\<close>: \<open>Inr\<close> of the path returned, or \<open>Inl\<close> of the rendering
  \<open>String(e)\<close> of the error thrown.
\<close>

definition downloadVideo ::
  "host \<Rightarrow> DownloadOptions \<Rightarrow> (jsnum \<Rightarrow> string \<Rightarrow> 's \<Rightarrow> 's) \<Rightarrow> world \<times> 's
     \<Rightarrow> (string + string) \<times> world \<times> 's" where
  "downloadVideo h opts onProgress ws =
     (let (w, st) = ws;
          ytdlpBin = getBinPath h (fs w) ''yt-dlp'';
          ffmpegBin = getBinPath h (fs w) ''ffmpeg''
      in if \<not> truthy ytdlpBin then (Inl ''Error: yt-dlp not installed. Run the Setup command.'', w, st)
         else if \<not> truthy ffmpegBin
           then (Inl ''Error: ffmpeg not installed. Run the Setup command.'', w, st)
         else
           let (p, w') = spawn h (the ytdlpBin) (downloadArgs h (the ffmpegBin) opts) w;
               (lastFile, st') = fold (download_onData onProgress) (chunks p) ([], st)
           in (case failure p of
                 Some e \<Rightarrow> (Inl e, w', st')
               | None \<Rightarrow> (Inr (if lastFile = [] then outDir h else lastFile), w', st')))"


section \<open>setup.tsx: the installer\<close>

datatype StepState = Idle | Running | Done | Error | Skipped

record StepStatus =
  state :: StepState
  log_line :: string

datatype StepKey = Brew | Ytdlp | Ffmpeg

type_synonym Steps = "StepKey \<Rightarrow> StepStatus"

definition IDLE :: StepStatus where
  "IDLE = \<lparr>state = Idle, log_line = []\<rparr>"

datatype ToastStyle = Animated | Success | Failure

record Toast =
  style :: ToastStyle
  title :: string
  message :: string

text \<open>
  The state of the \<open>Setup\<close> component and the toast that \<open>installAll\<close> shows. The field
  \<open>transitions\<close> is kept by the model only: every call of \<open>upd\<close> appends the key it
  patches and the state of that step after the patch. (The character U+2026 of the
  messages is written as three dots.)
\<close>

record Setup =
  deps :: "DepsStatus option"
  installing :: bool
  steps :: Steps
  toast :: "Toast option"
  transitions :: "(StepKey \<times> StepState) list"

text \<open>\<open>upd(key, patch)\<close>: the patch is the function that overwrites the fields it names.\<close>

definition upd :: "StepKey \<Rightarrow> (StepStatus \<Rightarrow> StepStatus) \<Rightarrow> Setup \<Rightarrow> Setup" where
  "upd key patch u =
     u\<lparr>steps := (steps u)(key := patch (steps u key)),
       transitions := transitions u @ [(key, state (patch (steps u key)))]\<rparr>"

definition toastSet :: "(Toast \<Rightarrow> Toast) \<Rightarrow> Setup \<Rightarrow> Setup" where
  "toastSet f u = u\<lparr>toast := map_option f (toast u)\<rparr>"

text \<open>
  The three blocks of \<open>installAll\<close>. Each gives \<open>Inl\<close> of the final state when
  \<open>installAll\<close> returns inside the block, and \<open>Inr\<close> of the state to go on with.
\<close>

definition brewBlock :: "host \<Rightarrow> DepsStatus \<Rightarrow> world \<times> Setup \<Rightarrow> world \<times> Setup + world \<times> Setup" where
  "brewBlock h freshDeps ws =
     (let (w, u) = ws
      in if brew freshDeps then Inr (w, upd Brew (\<lambda>s. s\<lparr>state := Skipped, log_line := []\<rparr>) u)
         else
           let u = upd Brew (\<lambda>s. s\<lparr>state := Running, log_line := ''Installing Homebrew...''\<rparr>) u;
               u = toastSet (\<lambda>t. t\<lparr>message := ''Installing Homebrew...''\<rparr>) u
           in (case installHomebrew h (\<lambda>line. upd Brew (\<lambda>s. s\<lparr>log_line := line\<rparr>)) (w, u) of
                 (None, w', u') \<Rightarrow> Inr (w', upd Brew (\<lambda>s. s\<lparr>state := Done\<rparr>) u')
               | (Some e, w', u') \<Rightarrow>
                   let u' = upd Brew (\<lambda>s. s\<lparr>state := Error, log_line := e\<rparr>) u';
                       u' = toastSet (\<lambda>t. t\<lparr>style := Failure, title := ''Homebrew install failed'',
                              message := ''Try: /bin/bash -c '' @ [CHR 0x22] @ homebrewScript @ [CHR 0x22]\<rparr>) u'
                   in Inl (w', u'\<lparr>installing := False\<rparr>)))"

definition ytdlpBlock :: "host \<Rightarrow> DepsStatus \<Rightarrow> world \<times> Setup \<Rightarrow> world \<times> Setup + world \<times> Setup" where
  "ytdlpBlock h freshDeps ws =
     (let (w, u) = ws
      in if ytdlp freshDeps then Inr (w, upd Ytdlp (\<lambda>s. s\<lparr>state := Skipped\<rparr>) u)
         else
           let u = upd Ytdlp (\<lambda>s. s\<lparr>state := Running, log_line := ''Installing yt-dlp...''\<rparr>) u;
               u = toastSet (\<lambda>t. t\<lparr>message := ''Installing yt-dlp...''\<rparr>) u
           in (case brewInstall h ''yt-dlp'' (\<lambda>line. upd Ytdlp (\<lambda>s. s\<lparr>log_line := line\<rparr>)) (w, u) of
                 (None, w', u') \<Rightarrow> Inr (w', upd Ytdlp (\<lambda>s. s\<lparr>state := Done\<rparr>) u')
               | (Some e, w', u') \<Rightarrow>
                   let u' = upd Ytdlp (\<lambda>s. s\<lparr>state := Error, log_line := e\<rparr>) u';
                       u' = toastSet (\<lambda>t. t\<lparr>style := Failure, title := ''yt-dlp install failed'',
                              message := ''Run: brew install yt-dlp''\<rparr>) u'
                   in Inl (w', u'\<lparr>installing := False\<rparr>)))"

definition ffmpegBlock :: "host \<Rightarrow> DepsStatus \<Rightarrow> world \<times> Setup \<Rightarrow> world \<times> Setup + world \<times> Setup" where
  "ffmpegBlock h freshDeps ws =
     (let (w, u) = ws
      in if ffmpeg freshDeps then Inr (w, upd Ffmpeg (\<lambda>s. s\<lparr>state := Skipped\<rparr>) u)
         else
           let u = upd Ffmpeg (\<lambda>s. s\<lparr>state := Running,
                                     log_line := ''Installing ffmpeg (takes a minute)...''\<rparr>) u;
               u = toastSet (\<lambda>t. t\<lparr>message := ''Installing ffmpeg...''\<rparr>) u
           in (case brewInstall h ''ffmpeg'' (\<lambda>line. upd Ffmpeg (\<lambda>s. s\<lparr>log_line := line\<rparr>)) (w, u) of
                 (None, w', u') \<Rightarrow> Inr (w', upd Ffmpeg (\<lambda>s. s\<lparr>state := Done\<rparr>) u')
               | (Some e, w', u') \<Rightarrow>
                   let u' = upd Ffmpeg (\<lambda>s. s\<lparr>state := Error, log_line := e\<rparr>) u';
                       u' = toastSet (\<lambda>t. t\<lparr>style := Failure, title := ''ffmpeg install failed'',
                              message := ''Run: brew install ffmpeg''\<rparr>) u'
                   in Inl (w', u'\<lparr>installing := False\<rparr>)))"

text \<open>
  \<open>installAll()\<close>. Nothing inside the outer \<open>try\<close> throws past the inner handlers (the
  dependency check and the state setters do not throw), so the outer \<open>catch\<close> has no
  branch here.
\<close>

definition installAll :: "host \<Rightarrow> world \<times> Setup \<Rightarrow> world \<times> Setup" where
  "installAll h ws =
     (let (w, u) = ws;
          u = u\<lparr>installing := True\<rparr>;
          u = u\<lparr>steps := (\<lambda>k. IDLE)\<rparr>;
          u = u\<lparr>toast := Some \<lparr>style = Animated, title = ''Installing dependencies...'', message = []\<rparr>\<rparr>;
          freshDeps = checkDeps h (fs w)
      in (case brewBlock h freshDeps (w, u) of
            Inl r \<Rightarrow> r
          | Inr ws1 \<Rightarrow>
              (case ytdlpBlock h freshDeps ws1 of
                 Inl r \<Rightarrow> r
               | Inr ws2 \<Rightarrow>
                   (case ffmpegBlock h freshDeps ws2 of
                      Inl r \<Rightarrow> r
                    | Inr (w3, u3) \<Rightarrow>
                        let u3 = toastSet (\<lambda>t. t\<lparr>style := Success, title := ''All done!'',
                                   message := ''clipity is ready to use''\<rparr>) u3;
                            u3 = u3\<lparr>deps := Some (checkDeps h (fs w3))\<rparr>
                        in (w3, u3\<lparr>installing := False\<rparr>)))))"


section \<open>download.tsx: the trim form\<close>

record VideoInfo =
  info_title :: string
  info_duration :: jsnum
  info_thumbnail :: string
  info_uploader :: string
  info_url :: string

text \<open>The values that the form submits.\<close>

record TrimValues =
  startTimeField :: string
  endTimeField :: string
  formatField :: string

text \<open>
  A toast message of the form: a text, or the progress text made of the percentage, a
  percent sign, a dash and \<open>info.title.slice(0, 40)\<close>, kept as its two parts. (The
  fields of \<open>VideoInfo\<close>, of the submitted values and of the toast carry a prefix or a
  suffix here, since other records have the same field names; the check mark of the HUD
  text is left out.)
\<close>

datatype FormMessage = Text string | ProgressText jsnum string

record FormToast =
  toastStyle :: ToastStyle
  toastTitle :: string
  toastMessage :: FormMessage

record TrimForm =
  isDownloading :: bool
  progress :: jsnum
  formToast :: "FormToast option"
  hud :: "string option"
  popped :: bool

text \<open>The \<open>onProgress\<close> callback that \<open>handleSubmit\<close> passes.\<close>

definition formProgress :: "VideoInfo \<Rightarrow> jsnum \<Rightarrow> string \<Rightarrow> TrimForm \<Rightarrow> TrimForm" where
  "formProgress info pct line t =
     t\<lparr>progress := pct,
       formToast := map_option (\<lambda>x. x\<lparr>toastMessage := ProgressText pct (take 40 (info_title info))\<rparr>)
                      (formToast t)\<rparr>"

definition emptyToUndefined :: "string \<Rightarrow> string option" where
  "emptyToUndefined s = (if s = [] then None else Some s)"

text \<open>The test of the \<open>if\<close> under the comment \<open>// Validate\<close>.\<close>

definition invalidRange :: "jsnum option \<Rightarrow> jsnum option \<Rightarrow> bool" where
  "invalidRange startSecs endSecs =
     (startSecs \<noteq> None \<and> endSecs \<noteq> None \<and> js_ge (the startSecs) (the endSecs))"

definition handleSubmit :: "host \<Rightarrow> VideoInfo \<Rightarrow> TrimValues \<Rightarrow> world \<times> TrimForm \<Rightarrow> world \<times> TrimForm" where
  "handleSubmit h info values ws =
     (let (w, t) = ws;
          startSecs = parseTimeToSeconds (startTimeField values);
          endSecs = parseTimeToSeconds (endTimeField values)
      in if invalidRange startSecs endSecs
         then (w, t\<lparr>formToast := Some \<lparr>toastStyle = Failure, toastTitle = ''Invalid trim range'',
                       toastMessage = Text ''Start time must be before end time''\<rparr>\<rparr>)
         else
           let t = t\<lparr>isDownloading := True\<rparr>;
               t = t\<lparr>progress := Fin 0\<rparr>;
               t = t\<lparr>formToast := Some \<lparr>toastStyle = Animated, toastTitle = ''Downloading...'',
                       toastMessage = Text (take 60 (info_title info))\<rparr>\<rparr>;
               (r, w', t) = downloadVideo h
                   \<lparr>url = info_url info,
                    startTime = emptyToUndefined (startTimeField values),
                    endTime = emptyToUndefined (endTimeField values),
                    format = formatField values,
                    quality = None\<rparr>
                   (formProgress info) (w, t);
               t = (case r of
                      Inr filePath \<Rightarrow>
                        let t = t\<lparr>formToast := map_option (\<lambda>x. x\<lparr>toastStyle := Success,
                                      toastTitle := ''Download complete!'',
                                      toastMessage := Text ''Saved to ~/Downloads/clipity/''\<rparr>) (formToast t)\<rparr>;
                            t = t\<lparr>hud := Some ''Downloaded to ~/Downloads/clipity/''\<rparr>
                        in t\<lparr>popped := True\<rparr>
                    | Inl e \<Rightarrow>
                        t\<lparr>formToast := map_option (\<lambda>x. x\<lparr>toastStyle := Failure,
                              toastTitle := ''Download failed'',
                              toastMessage := Text (take 120 e)\<rparr>) (formToast t)\<rparr>)
           in (w', t\<lparr>isDownloading := False\<rparr>))"


section \<open>Observing the callbacks and the output\<close>

text \<open>Callbacks that keep, in order, what they are called with.\<close>

definition recordLine :: "string \<Rightarrow> string list \<Rightarrow> string list" where
  "recordLine l seen = seen @ [l]"

definition recordProgress :: "jsnum \<Rightarrow> string \<Rightarrow> (jsnum \<times> string) list \<Rightarrow> (jsnum \<times> string) list" where
  "recordProgress pct line seen = seen @ [(pct, line)]"

text \<open>The lines that the \<open>data\<close> handlers see in a sequence of chunks.\<close>

definition observedLines :: "string list \<Rightarrow> string list" where
  "observedLines cs = concat (map nonEmptyLines cs)"


text \<open>
  A fraction is nothing, or a dot and digits. A line contains a percentage when somewhere
  in it stand digits, a fraction and a percent sign. The value of the digits and the
  fraction is their decimal value.
\<close>

definition isFraction :: "string \<Rightarrow> bool" where
  "isFraction fr \<longleftrightarrow> fr = [] \<or> (\<exists>d2. fr = CHR ''.'' # d2 \<and> list_all isDigit d2)"

definition hasPercentage :: "string \<Rightarrow> bool" where
  "hasPercentage line \<longleftrightarrow>
     (\<exists>pre d fr post. line = pre @ d @ fr @ CHR ''%'' # post \<and> d \<noteq> [] \<and> list_all isDigit d \<and> isFraction fr)"



definition decimalValue :: "string \<Rightarrow> string \<Rightarrow> rat" where
  "decimalValue d fr = of_nat (digitsVal d) + of_nat (digitsVal (tl fr)) / 10 ^ length (tl fr)"


section \<open>An example host\<close>

text \<open>
  A host for the concrete runs below. Its \<open>join\<close> is \<open>path.join\<close> of POSIX: the non-empty
  segments are joined by slashes and the result is normalised (empty and \<open>.\<close> segments
  dropped, \<open>..\<close> removing the segment before it, or kept in a relative path that has none).
  The home directory is \<open>/Users/me\<close>, and the behaviour of the external programs is a
  parameter.
\<close>

text \<open>The segments kept so far are in \<open>res\<close>, the last one first.\<close>

fun normalizeSegments :: "bool \<Rightarrow> string list \<Rightarrow> string list \<Rightarrow> string list" where
  "normalizeSegments allowAboveRoot res [] = rev res"
| "normalizeSegments allowAboveRoot res (seg # segs) =
     (if seg = [] \<or> seg = ''.'' then normalizeSegments allowAboveRoot res segs
      else if seg = ''..'' then
        (if res \<noteq> [] \<and> hd res \<noteq> ''..'' then normalizeSegments allowAboveRoot (tl res) segs
         else if allowAboveRoot then normalizeSegments allowAboveRoot (''..'' # res) segs
         else normalizeSegments allowAboveRoot res segs)
      else normalizeSegments allowAboveRoot (seg # res) segs)"

definition posixNormalize :: "string \<Rightarrow> string" where
  "posixNormalize path =
     (if path = [] then ''.''
      else
        let isAbsolute = (hd path = CHR ''/'');
            trailingSeparator = (last path = CHR ''/'');
            p = joinChar CHR ''/'' (normalizeSegments (\<not> isAbsolute) [] (split CHR ''/'' path))
        in if p = [] then (if isAbsolute then ''/'' else if trailingSeparator then ''./'' else ''.'')
           else (if isAbsolute then ''/'' else []) @ p @ (if trailingSeparator then ''/'' else []))"

definition posixJoin :: "string list \<Rightarrow> string" where
  "posixJoin paths =
     (let joined = joinChar CHR ''/'' (filter (\<lambda>p. p \<noteq> []) paths)
      in if joined = [] then ''.'' else posixNormalize joined)"

definition exampleHost :: "(string \<Rightarrow> string list \<Rightarrow> filesystem \<Rightarrow> proc) \<Rightarrow> host" where
  "exampleHost run = \<lparr>join = posixJoin, homedir = ''/Users/me'', execa = run\<rparr>"

text \<open>A file system that holds exactly the listed paths.\<close>

definition filesAt :: "string list \<Rightarrow> filesystem" where
  "filesAt ps = (\<lambda>p. p \<in> set ps)"

text \<open>A program that prints the given chunks, ends as given and leaves the file system as it was.\<close>

definition quietRun :: "string list \<Rightarrow> string option \<Rightarrow> string \<Rightarrow> string list \<Rightarrow> filesystem \<Rightarrow> proc" where
  "quietRun out err file args existsSync = \<lparr>chunks = out, failure = err, fs_after = existsSync\<rparr>"


text \<open>A world with the three tools in the first directory, a video and a fresh form.\<close>

definition exampleWorld :: world where
  "exampleWorld =
     \<lparr>fs = filesAt [''/opt/homebrew/bin/brew'', ''/opt/homebrew/bin/yt-dlp'', ''/opt/homebrew/bin/ffmpeg''],
      spawned = []\<rparr>"

definition exampleInfo :: VideoInfo where
  "exampleInfo =
     \<lparr>info_title = ''A clip'', info_duration = Fin 125, info_thumbnail = [], info_uploader = ''me'',
      info_url = ''https://example.org/v''\<rparr>"

definition exampleForm :: TrimForm where
  "exampleForm = \<lparr>isDownloading = False, progress = Fin 0, formToast = None, hud = None, popped = False\<rparr>"


definition exampleOptions :: DownloadOptions where
  "exampleOptions =
     \<lparr>url = ''https://example.org/v'', startTime = None, endTime = None, format = ''video'',
      quality = None\<rparr>"



text \<open>
  An output of an installer: a line, an empty line, and an indented line of 120 characters;
  and an output of the downloader: one progress line of 105 characters.
\<close>

definition installOutput :: "string list" where
  "installOutput = [''==> Pouring'' @ [CHR 0x0A, CHR 0x0A] @ ''  '' @ replicate 120 CHR ''x'']"

definition longProgressLine :: string where
  "longProgressLine = replicate 101 CHR ''a'' @ '' 50%''"

text \<open>A world with none of the tools, and the \<open>Setup\<close> component as it is mounted.\<close>

definition bareWorld :: world where
  "bareWorld = \<lparr>fs = filesAt [], spawned = []\<rparr>"

definition exampleSetup :: Setup where
  "exampleSetup = \<lparr>deps = None, installing = False, steps = (\<lambda>k. IDLE), toast = None, transitions = []\<rparr>"


section \<open>An invariant of the Homebrew step\<close>

text \<open>
  What the log lines of the running Homebrew step leave as it was in \<open>u0\<close>: the two
  other steps, the flags, the toast; the Homebrew step stays running and only its key is
  patched.
\<close>

definition brewRunning :: "Setup \<Rightarrow> Setup \<Rightarrow> bool" where
  "brewRunning u0 u \<longleftrightarrow>
     steps u Ytdlp = steps u0 Ytdlp \<and> steps u Ffmpeg = steps u0 Ffmpeg
     \<and> state (steps u Brew) = Running \<and> installing u = installing u0 \<and> deps u = deps u0
     \<and> toast u = toast u0
     \<and> (\<exists>ts. transitions u = transitions u0 @ ts \<and> (\<forall>x \<in> set ts. fst x = Brew))"


section \<open>Rounding to a double\<close>

text \<open>
  Powers of two, the binade of a value, and what rounding does: it leaves a natural number
  below \<open>2^53\<close> as it is, and it moves a value below \<open>2^(k+1)\<close> by at most \<open>2^(k-53)\<close>.
\<close>

lemma pow2_powi: "pow2 e = 2 powi e"
  by (simp add: pow2_def power_int_def inverse_eq_divide power_one_over)

lemma pow2_pos: "0 < pow2 e"
  by (simp add: pow2_powi)

lemma pow2_add: "pow2 (a + b) = pow2 a * pow2 b"
  by (simp add: pow2_powi power_int_add)

lemma pow2_mono: "a \<le> b \<Longrightarrow> pow2 a \<le> pow2 b"
  by (simp add: pow2_powi power_int_increasing)

lemma pow2_less_imp: "pow2 a < pow2 b \<Longrightarrow> a < b"
  using pow2_mono[of b a] by (cases "a < b") auto

lemma pow2_nat: "0 \<le> e \<Longrightarrow> pow2 e = 2 ^ nat e"
  by (simp add: pow2_def)

lemma binade_finite: "finite (insert (- 1022) {e \<in> {- 1022 .. 1023}. pow2 e \<le> a})"
proof -
  have "finite {e \<in> {- 1022 .. 1023 :: int}. pow2 e \<le> a}"
    by (rule finite_subset[of _ "{- 1022 .. 1023}"]) auto
  then show ?thesis by simp
qed

lemma binade_le:
  assumes "a < pow2 (k + 1)" "- 1022 \<le> k"
  shows "binade a \<le> k"
proof -
  have "\<forall>e \<in> insert (- 1022) {e \<in> {- 1022 .. 1023}. pow2 e \<le> a}. e \<le> k"
  proof
    fix e assume "e \<in> insert (- 1022) {e \<in> {- 1022 .. 1023}. pow2 e \<le> a}"
    then consider "e = - 1022" | "pow2 e \<le> a" by auto
    then show "e \<le> k"
    proof cases
      case 1 with assms(2) show ?thesis by simp
    next
      case 2
      with assms(1) have "pow2 e < pow2 (k + 1)" by simp
      then show ?thesis using pow2_less_imp by fastforce
    qed
  qed
  then show ?thesis unfolding binade_def using binade_finite[of a] by (subst Max_le_iff) blast+
qed

lemma binade_ge: "- 1022 \<le> binade a"
  unfolding binade_def using binade_finite[of a] by (rule Max_ge) simp

lemma binade_eq:
  assumes "pow2 e \<le> a" "a < pow2 (e + 1)" "- 1022 \<le> e" "e \<le> 1023"
  shows "binade a = e"
proof (rule antisym)
  show "binade a \<le> e" using assms(2,3) by (rule binade_le)
  show "e \<le> binade a" unfolding binade_def using binade_finite[of a] by (rule Max_ge) (use assms in simp)
qed

lemma roundHalfEven_int: "roundHalfEven (of_int m) = m"
  by (simp add: roundHalfEven_def)

lemma roundHalfEven_err: "\<bar>of_int (roundHalfEven x) - x\<bar> \<le> 1 / 2"
proof -
  have "of_int \<lfloor>x\<rfloor> \<le> x" "x < of_int \<lfloor>x\<rfloor> + 1" by linarith+
  then show ?thesis by (auto simp: roundHalfEven_def Let_def)
qed

lemma roundHalfEven_near:
  assumes "\<bar>x - of_int m\<bar> < 1 / 2"
  shows "roundHalfEven x = m"
proof -
  from roundHalfEven_err[of x] assms have "\<bar>(of_int (roundHalfEven x) :: rat) - of_int m\<bar> < 1" by linarith
  then have "\<bar>(of_int (roundHalfEven x - m) :: rat)\<bar> < 1" by simp
  then have "\<bar>roundHalfEven x - m\<bar> < 1" by (metis of_int_abs of_int_less_1_iff)
  then show ?thesis by simp
qed

lemma fl_pos:
  assumes "0 < a"
  shows "fl a = (if pow2 1024 \<le> of_int (roundHalfEven (a / pow2 (binade a - 52))) * pow2 (binade a - 52)
                 then PosInf
                 else Fin (of_int (roundHalfEven (a / pow2 (binade a - 52))) * pow2 (binade a - 52)))"
  using assms by (simp add: fl_def Let_def)

lemma fl_neg: "fl (- q) = js_neg (fl q)"
  by (cases "q = 0"; cases "0 < q") (auto simp: fl_def Let_def)

lemma pow2_split: "pow2 (e - 52) * pow2 (52 - e) = 1"
  using pow2_add[of "e - 52" "52 - e"] by (simp add: pow2_def)

lemma fl_exact:
  assumes "0 < a" "a / pow2 (binade a - 52) = of_int m" "a < pow2 1024"
  shows "fl a = Fin a"
proof -
  have "roundHalfEven (a / pow2 (binade a - 52)) = m"
    unfolding assms(2) by (rule roundHalfEven_int)
  moreover have "of_int m * pow2 (binade a - 52) = a"
    using assms(2) pow2_pos[of "binade a - 52"] by (simp add: field_simps)
  ultimately have "of_int (roundHalfEven (a / pow2 (binade a - 52))) * pow2 (binade a - 52) = a"
    by simp
  then show ?thesis using assms(1,3) by (simp add: fl_pos)
qed

lemma fl_nat_exact:
  assumes "n < 2 ^ 53"
  shows "fl (of_nat n) = Fin (of_nat n)"
proof (cases "n = 0")
  case True
  then show ?thesis by (simp add: fl_def)
next
  case False
  let ?a = "of_nat n :: rat"
  let ?e = "binade ?a"
  from assms have lt: "?a < pow2 53"
    by (simp add: pow2_def)
  then have e: "?e \<le> 52" using binade_le[of ?a 52] by simp
  have "?a / pow2 (?e - 52) = ?a * pow2 (52 - ?e)"
    using pow2_split[of ?e] pow2_pos[of "?e - 52"] by (simp add: field_simps)
  also have "\<dots> = of_int (int n * 2 ^ nat (52 - ?e))"
    using e by (simp add: pow2_def)
  finally have m: "?a / pow2 (?e - 52) = of_int (int n * 2 ^ nat (52 - ?e))" .
  have "pow2 53 \<le> pow2 1024" by (rule pow2_mono) simp
  with lt have "?a < pow2 1024" by simp
  moreover from False have "0 < ?a" by simp
  ultimately show ?thesis using m by (intro fl_exact[where m = "int n * 2 ^ nat (52 - ?e)"])
qed

lemma fl_err:
  assumes "0 < a" "a < pow2 (k + 1)" "- 1022 \<le> k" "k \<le> 1022"
  shows "\<exists>r. fl a = Fin r \<and> \<bar>r - a\<bar> \<le> pow2 (k - 53)"
proof -
  let ?e = "binade a"
  let ?u = "pow2 (?e - 52)"
  let ?r = "of_int (roundHalfEven (a / ?u)) * ?u"
  have e: "?e \<le> k" using assms(2,3) by (rule binade_le)
  have u: "0 < ?u" by (rule pow2_pos)
  have uk: "?u \<le> pow2 (k - 52)" using e by (intro pow2_mono) simp
  have half: "pow2 (k - 52) = 2 * pow2 (k - 53)"
    using pow2_add[of 1 "k - 53"] by (simp add: pow2_def)
  have "\<bar>?r - a\<bar> = \<bar>of_int (roundHalfEven (a / ?u)) - a / ?u\<bar> * ?u"
    using u by (simp add: abs_mult_pos[symmetric] field_simps)
  also have "\<dots> \<le> (1 / 2) * ?u"
    using roundHalfEven_err[of "a / ?u"] u by (intro mult_right_mono) auto
  also have "\<dots> \<le> pow2 (k - 53)" using uk half by simp
  finally have err: "\<bar>?r - a\<bar> \<le> pow2 (k - 53)" .
  have "pow2 (k - 53) \<le> pow2 (k + 1)" by (intro pow2_mono) simp
  with err assms(2) have "?r < 2 * pow2 (k + 1)" by linarith
  also have "\<dots> = pow2 (k + 2)" using pow2_add[of 1 "k + 1"] by (simp add: pow2_def add.commute)
  also have "\<dots> \<le> pow2 1024" using assms(4) by (intro pow2_mono) simp
  finally have "\<not> pow2 1024 \<le> ?r" by simp
  with assms(1) have "fl a = Fin ?r" by (simp add: fl_pos)
  with err show ?thesis by blast
qed

lemma fl_floor:
  assumes "0 < a" "a < pow2 (k + 1)" "- 1022 \<le> k" "k \<le> 1022"
    and "of_int m + pow2 (k - 53) \<le> a" "a + pow2 (k - 53) < of_int m + 1"
  shows "\<exists>r. fl a = Fin r \<and> \<lfloor>r\<rfloor> = m"
proof -
  from fl_err[OF assms(1-4)] obtain r where r: "fl a = Fin r" "\<bar>r - a\<bar> \<le> pow2 (k - 53)" by blast
  with assms(5,6) have "of_int m \<le> r" "r < of_int m + 1" by linarith+
  then have "\<lfloor>r\<rfloor> = m" by linarith
  with r(1) show ?thesis by blast
qed


lemma add_nat_exact:
  "a + b < 2 ^ 53 \<Longrightarrow> js_add (Fin (of_nat a)) (Fin (of_nat b)) = Fin (of_nat (a + b))"
  using fl_nat_exact[of "a + b"] by simp

lemma mul_nat_exact:
  "a * b < 2 ^ 53 \<Longrightarrow> js_mul (Fin (of_nat a)) (Fin (of_nat b)) = Fin (of_nat (a * b))"
  using fl_nat_exact[of "a * b"] by simp

lemma mod_nat_exact:
  assumes "0 < b"
  shows "js_mod (Fin (of_nat n)) (Fin (of_nat b)) = Fin (of_nat (n mod b))"
proof -
  have "towardsZero (of_nat n / of_nat b) = int (n div b)"
    by (simp add: towardsZero_def floor_divide_of_nat_eq)
  moreover have "(of_nat n :: rat) - of_nat b * of_nat (n div b) = of_nat (n mod b)"
    by (metis add_diff_cancel_left' mult_div_mod_eq of_nat_add of_nat_mult)
  ultimately show ?thesis using assms by simp
qed

lemma floor_div_nat:
  assumes "0 < b" "n div b < 2 ^ 53"
    and "of_nat n / of_nat b < pow2 (k + 1)" "pow2 (k - 53) < 1 / of_nat b" "- 1022 \<le> k" "k \<le> 1022"
  shows "Math_floor (js_div (Fin (of_nat n)) (Fin (of_nat b))) = Fin (of_nat (n div b))"
proof (cases "n mod b = 0")
  case True
  then have "n = n div b * b" by auto
  then have "(of_nat n :: rat) = of_nat (n div b) * of_nat b" by (metis of_nat_mult)
  then have "(of_nat n :: rat) / of_nat b = of_nat (n div b)"
    using assms(1) by simp
  then have "js_div (Fin (of_nat n)) (Fin (of_nat b)) = Fin (of_nat (n div b))"
    using assms(1,2) by (simp add: fl_nat_exact)
  then show ?thesis by simp
next
  case False
  let ?q = "of_nat n / of_nat b :: rat"
  let ?f = "of_nat (n mod b) / of_nat b :: rat"
  let ?m = "int (n div b)"
  have b: "0 < (of_nat b :: rat)" using assms(1) by simp
  have "n = n div b * b + n mod b" by simp
  then have n: "(of_nat n :: rat) = of_nat (n div b) * of_nat b + of_nat (n mod b)"
    by (metis of_nat_add of_nat_mult)
  have q: "?q = of_int ?m + ?f"
    using b by (subst n) (simp add: field_simps)
  from False have "1 \<le> n mod b" by simp
  then have "(1 :: rat) \<le> of_nat (n mod b)" by simp
  then have lo: "1 / of_nat b \<le> ?f"
    using b by (simp add: divide_le_cancel)
  have "n mod b + 1 \<le> b" using assms(1) by (simp add: Suc_leI)
  then have "(of_nat (n mod b + 1) :: rat) \<le> of_nat b" by (simp only: of_nat_le_iff)
  then have "(of_nat (n mod b) :: rat) + 1 \<le> of_nat b" by simp
  then have hi: "?f + 1 / of_nat b \<le> 1"
    using b by (simp add: field_simps)
  have "0 < 1 / (of_nat b :: rat)" using b by simp
  with lo have "0 < ?f" by linarith
  with q have pos: "0 < ?q" by simp
  have 1: "of_int ?m + pow2 (k - 53) \<le> ?q" using q lo assms(4) by linarith
  have 2: "?q + pow2 (k - 53) < of_int ?m + 1" using q hi assms(4) by linarith
  from fl_floor[OF pos assms(3,5,6) 1 2] obtain r where "fl ?q = Fin r" "\<lfloor>r\<rfloor> = ?m" by blast
  then show ?thesis using assms(1) by simp
qed

lemma fl_not_NaN: "fl q \<noteq> NaN" "\<not> isNaN (fl q)"
  by (simp_all add: fl_def Let_def isNaN_def)

lemma roundHalfEven_tie:
  assumes "x = of_int m + 1 / 2"
  shows "roundHalfEven x = (if even m then m else m + 1)"
proof -
  have "\<lfloor>x\<rfloor> = m" unfolding assms by linarith
  then show ?thesis by (simp add: roundHalfEven_def Let_def assms)
qed

text \<open>The value of \<open>fl\<close> at a number whose binade is known.\<close>

lemma fl_eval:
  assumes "0 < a" "pow2 e \<le> a" "a < pow2 (e + 1)" "- 1022 \<le> e" "e \<le> 1022"
    and "roundHalfEven (a / pow2 (e - 52)) = m"
  shows "fl a = Fin (of_int m * pow2 (e - 52))"
proof -
  from assms(5) have e: "e \<le> 1023" by simp
  have b: "binade a = e" using assms(2,3,4) e by (rule binade_eq)
  from fl_err[OF assms(1,3,4,5)] obtain r where "fl a = Fin r" by blast
  then show ?thesis using assms(1,6) by (simp add: fl_pos b split: if_splits)
qed

lemma roundHalfEven_ge_floor: "\<lfloor>x\<rfloor> \<le> roundHalfEven x"
  by (simp add: roundHalfEven_def Let_def)

text \<open>From \<open>2^1024\<close> on the result is an infinity.\<close>

lemma fl_overflow:
  assumes "pow2 1024 \<le> a"
  shows "fl a = PosInf"
proof -
  have "pow2 1023 \<le> pow2 1024" by (rule pow2_mono) simp
  with assms have a: "pow2 1023 \<le> a" by simp
  have "1023 \<le> binade a"
    unfolding binade_def using binade_finite[of a] by (rule Max_ge) (use a in simp)
  moreover have "binade a \<le> 1023"
    unfolding binade_def using binade_finite[of a] by (subst Max_le_iff) auto
  ultimately have b: "binade a = 1023" by simp
  have pos: "0 < a" using pow2_pos[of 1024] assms by simp
  have s: "pow2 1024 = pow2 53 * pow2 971" using pow2_add[of 53 971] by simp
  have u: "0 < pow2 971" by (rule pow2_pos)
  from assms have "pow2 53 * pow2 971 \<le> a" unfolding s .
  then have "pow2 53 \<le> a / pow2 971" using u by (simp add: pos_le_divide_eq)
  then have "(of_int (2 ^ 53) :: rat) \<le> a / pow2 971" by (simp add: pow2_def)
  then have "2 ^ 53 \<le> \<lfloor>a / pow2 971\<rfloor>" by (simp only: le_floor_iff)
  from this roundHalfEven_ge_floor[of "a / pow2 971"] have "2 ^ 53 \<le> roundHalfEven (a / pow2 971)"
    by (rule order_trans)
  then have "(of_int (2 ^ 53) :: rat) \<le> of_int (roundHalfEven (a / pow2 971))"
    by (simp only: of_int_le_iff)
  then have "pow2 53 \<le> of_int (roundHalfEven (a / pow2 971))" by (simp add: pow2_def)
  then have "pow2 53 * pow2 971 \<le> of_int (roundHalfEven (a / pow2 971)) * pow2 971"
    using u by (simp add: mult_right_mono)
  then have "pow2 1024 \<le> of_int (roundHalfEven (a / pow2 971)) * pow2 971" unfolding s .
  then show ?thesis using pos by (simp add: fl_pos b)
qed

text \<open>\<open>2^53 + 1\<close> lies half way between two doubles and goes to the even one, \<open>2^53\<close>.\<close>

lemma fl_2_53_plus_1: "fl 9007199254740993 = Fin 9007199254740992"
proof -
  have "roundHalfEven (9007199254740993 / pow2 (53 - 52)) = 4503599627370496"
    using roundHalfEven_tie[of "9007199254740993 / pow2 (53 - 52)" 4503599627370496]
    by (simp add: pow2_def)
  from fl_eval[of 9007199254740993 53, OF _ _ _ _ _ this] show ?thesis by (simp add: pow2_def)
qed


section \<open>Digits, white space and splitting\<close>

lemma lt10_cases: "(d::nat) < 10 \<Longrightarrow> d = 0 \<or> d = 1 \<or> d = 2 \<or> d = 3 \<or> d = 4 \<or> d = 5 \<or> d = 6 \<or> d = 7 \<or> d = 8 \<or> d = 9"
  by arith

lemma isDigit_digitChar: "d < 10 \<Longrightarrow> isDigit (digitChar d)"
  by (drule lt10_cases) (auto simp: isDigit_def digitChar_def)

lemma digitVal_digitChar: "d < 10 \<Longrightarrow> digitVal (digitChar d) = d"
  by (drule lt10_cases) (auto simp: digitVal_def digitChar_def)

lemma String_nat_nonempty: "String_nat n \<noteq> []"
  by (subst String_nat.simps) simp

lemma String_nat_digits: "list_all isDigit (String_nat n)"
proof (induction n rule: String_nat.induct)
  case (1 n)
  show ?case
  proof (cases "n < 10")
    case True
    then show ?thesis by (subst String_nat.simps) (simp add: isDigit_digitChar)
  next
    case False
    with 1 show ?thesis by (subst String_nat.simps) (simp add: isDigit_digitChar)
  qed
qed

lemma digitsVal_snoc: "digitsVal (ds @ [c]) = 10 * digitsVal ds + digitVal c"
  by (simp add: digitsVal_def)

lemma digitsVal_String_nat: "digitsVal (String_nat n) = n"
proof (induction n rule: String_nat.induct)
  case (1 n)
  show ?case
  proof (cases "n < 10")
    case True
    then show ?thesis by (subst String_nat.simps) (simp add: digitsVal_def digitVal_digitChar)
  next
    case False
    with 1 show ?thesis by (subst String_nat.simps) (simp add: digitsVal_snoc digitVal_digitChar)
  qed
qed

lemma isDigit_not_ws: "isDigit c \<Longrightarrow> \<not> isWhiteSpace c"
  by (auto simp: isDigit_def isWhiteSpace_def)

lemma trim_id: "s \<noteq> [] \<Longrightarrow> \<not> isWhiteSpace (hd s) \<Longrightarrow> \<not> isWhiteSpace (last s) \<Longrightarrow> trim s = s"
proof -
  assume a: "s \<noteq> []" "\<not> isWhiteSpace (hd s)" "\<not> isWhiteSpace (last s)"
  then have 1: "dropWhile isWhiteSpace s = s" by (cases s) auto
  from a have "rev s \<noteq> []" "\<not> isWhiteSpace (hd (rev s))" by (auto simp: hd_rev)
  then have "dropWhile isWhiteSpace (rev s) = rev s" by (cases "rev s") auto
  with 1 show ?thesis by (simp add: trim_def)
qed

lemma split_no_sep: "sep \<notin> set xs \<Longrightarrow> split sep xs = [xs]"
  by (induction xs) auto

lemma split_append_sep: "sep \<notin> set xs \<Longrightarrow> split sep (xs @ sep # ys) = xs # split sep ys"
  by (induction xs) auto

lemma takeWhile_all: "list_all P xs \<Longrightarrow> takeWhile P xs = xs"
  by (induction xs) auto
lemma dropWhile_all: "list_all P xs \<Longrightarrow> dropWhile P xs = []"
  by (induction xs) auto

lemma digit_no_radix_letter:
  "isDigit p \<Longrightarrow> p \<noteq> CHR ''x'' \<and> p \<noteq> CHR ''X'' \<and> p \<noteq> CHR ''o'' \<and> p \<noteq> CHR ''O''
     \<and> p \<noteq> CHR ''b'' \<and> p \<noteq> CHR ''B''"
  by (auto simp: isDigit_def)

lemma NonDecimal_digits: "list_all isDigit ds \<Longrightarrow> NonDecimalIntegerLiteral ds = None"
proof (cases ds)
  case Nil
  then show ?thesis by (simp add: NonDecimalIntegerLiteral_def)
next
  case (Cons z r)
  assume a: "list_all isDigit ds"
  show ?thesis
  proof (cases r)
    case Nil
    with Cons show ?thesis by (simp add: NonDecimalIntegerLiteral_def)
  next
    case (Cons p t)
    with a \<open>ds = z # r\<close> have "isDigit p" by simp
    from digit_no_radix_letter[OF this] show ?thesis
      by (simp add: NonDecimalIntegerLiteral_def \<open>ds = z # r\<close> Cons)
  qed
qed

lemma StrUnsigned_digits:
  assumes "ds \<noteq> []" "list_all isDigit ds"
  shows "StrUnsignedDecimalLiteral ds = Some (fl (of_nat (digitsVal ds)))"
proof -
  from assms have "ds \<noteq> ''Infinity''" by (auto simp: isDigit_def)
  moreover have "digitsVal [] = 0" by (simp add: digitsVal_def)
  ultimately show ?thesis using assms
    by (simp add: StrUnsignedDecimalLiteral_def takeWhile_all dropWhile_all ExponentPart_def pow10_def)
qed

lemma StrDecimal_digits:
  assumes "ds \<noteq> []" "list_all isDigit ds"
  shows "StrDecimalLiteral ds = Some (fl (of_nat (digitsVal ds)))"
proof -
  from assms obtain c r where ds: "ds = c # r" and c: "isDigit c" by (cases ds) auto
  from c have "c \<noteq> CHR ''+''" "c \<noteq> CHR ''-''" by (auto simp: isDigit_def)
  then show ?thesis using StrUnsigned_digits[OF assms] by (simp add: StrDecimalLiteral_def ds)
qed

lemma trim_digits:
  assumes "ds \<noteq> []" "list_all isDigit ds"
  shows "trim ds = ds"
proof (rule trim_id)
  show "ds \<noteq> []" by fact
  from assms have "isDigit (hd ds)" by (cases ds) auto
  then show "\<not> isWhiteSpace (hd ds)" by (rule isDigit_not_ws)
  from assms have "isDigit (last ds)" by (simp add: list_all_iff)
  then show "\<not> isWhiteSpace (last ds)" by (rule isDigit_not_ws)
qed

lemma Number_digits:
  assumes "ds \<noteq> []" "list_all isDigit ds"
  shows "Number ds = fl (of_nat (digitsVal ds))"
  using assms by (simp add: Number_def trim_digits NonDecimal_digits StrDecimal_digits)

lemma Number_digits_exact:
  assumes "ds \<noteq> []" "list_all isDigit ds" "digitsVal ds < 2 ^ 53"
  shows "Number ds = Fin (of_nat (digitsVal ds))"
  using Number_digits[OF assms(1,2)] fl_nat_exact[OF assms(3)] by simp

lemma colon_not_digit: "list_all isDigit ds \<Longrightarrow> CHR '':'' \<notin> set ds"
proof
  assume "list_all isDigit ds" "CHR '':'' \<in> set ds"
  then have "isDigit CHR '':''" by (simp add: list_all_iff)
  then show False by (simp add: isDigit_def)
qed

lemma parse_one:
  assumes "a \<noteq> []" "list_all isDigit a"
  shows "parseTimeToSeconds a = Some (fl (of_nat (digitsVal a)))"
  using assms
  by (simp add: parseTimeToSeconds_def trim_digits split_no_sep colon_not_digit Number_digits fl_not_NaN)

lemma parse_two:
  assumes "a \<noteq> []" "list_all isDigit a" "b \<noteq> []" "list_all isDigit b"
  shows "parseTimeToSeconds (a @ CHR '':'' # b)
         = Some (js_add (js_mul (fl (of_nat (digitsVal a))) (Fin 60)) (fl (of_nat (digitsVal b))))"
proof -
  have t: "trim (a @ CHR '':'' # b) = a @ CHR '':'' # b"
  proof (rule trim_id)
    from assms have "isDigit (hd a)" by (cases a) auto
    then show "\<not> isWhiteSpace (hd (a @ CHR '':'' # b))" using assms by (simp add: isDigit_not_ws)
    from assms have "isDigit (last b)" by (simp add: list_all_iff)
    then show "\<not> isWhiteSpace (last (a @ CHR '':'' # b))" using assms by (simp add: isDigit_not_ws)
  qed simp
  have s: "split CHR '':'' (a @ CHR '':'' # b) = [a, b]"
    using assms by (simp add: split_append_sep split_no_sep colon_not_digit)
  show ?thesis using assms
    by (simp add: parseTimeToSeconds_def t s Number_digits fl_not_NaN Let_def)
qed

lemma parse_three:
  assumes "a \<noteq> []" "list_all isDigit a" "b \<noteq> []" "list_all isDigit b" "c \<noteq> []" "list_all isDigit c"
  shows "parseTimeToSeconds (a @ CHR '':'' # b @ CHR '':'' # c)
         = Some (js_add (js_add (js_mul (fl (of_nat (digitsVal a))) (Fin 3600))
                          (js_mul (fl (of_nat (digitsVal b))) (Fin 60)))
                   (fl (of_nat (digitsVal c))))"
proof -
  have t: "trim (a @ CHR '':'' # b @ CHR '':'' # c) = a @ CHR '':'' # b @ CHR '':'' # c"
  proof (rule trim_id)
    from assms have "isDigit (hd a)" by (cases a) auto
    then show "\<not> isWhiteSpace (hd (a @ CHR '':'' # b @ CHR '':'' # c))" using assms by (simp add: isDigit_not_ws)
    from assms have "isDigit (last c)" by (simp add: list_all_iff)
    then show "\<not> isWhiteSpace (last (a @ CHR '':'' # b @ CHR '':'' # c))" using assms by (simp add: isDigit_not_ws)
  qed simp
  have s: "split CHR '':'' (a @ CHR '':'' # b @ CHR '':'' # c) = [a, b, c]"
    using assms by (simp add: split_append_sep split_no_sep colon_not_digit)
  show ?thesis using assms
    by (simp add: parseTimeToSeconds_def t s Number_digits fl_not_NaN Let_def)
qed

text \<open>Below \<open>2^53\<close> the positional sum is computed without rounding.\<close>

lemma hms_exact:
  fixes A B C :: nat
  assumes "A * 3600 + B * 60 + C < 2 ^ 53"
  shows "js_add (js_add (js_mul (fl (of_nat A)) (Fin 3600)) (js_mul (fl (of_nat B)) (Fin 60))) (fl (of_nat C))
           = Fin (of_nat (A * 3600 + B * 60 + C))"
    and "js_add (js_mul (fl (of_nat B)) (Fin 60)) (fl (of_nat C)) = Fin (of_nat (B * 60 + C))"
    and "fl (of_nat C) = Fin (of_nat C)"
proof -
  from assms have b: "A < 2 ^ 53" "B < 2 ^ 53" "C < 2 ^ 53" "A * 3600 < 2 ^ 53" "B * 60 < 2 ^ 53"
    "A * 3600 + B * 60 < 2 ^ 53" "B * 60 + C < 2 ^ 53" "A * 3600 + B * 60 + C < 2 ^ 53"
    by simp_all
  have n: "Fin 3600 = Fin (of_nat 3600)" "Fin 60 = Fin (of_nat 60)" by simp_all
  have a: "js_mul (fl (of_nat A)) (Fin 3600) = Fin (of_nat (A * 3600))"
    unfolding fl_nat_exact[OF b(1)] n by (rule mul_nat_exact[OF b(4)])
  have m: "js_mul (fl (of_nat B)) (Fin 60) = Fin (of_nat (B * 60))"
    unfolding fl_nat_exact[OF b(2)] n by (rule mul_nat_exact[OF b(5)])
  show "fl (of_nat C) = Fin (of_nat C)" by (rule fl_nat_exact[OF b(3)])
  show "js_add (js_mul (fl (of_nat B)) (Fin 60)) (fl (of_nat C)) = Fin (of_nat (B * 60 + C))"
    unfolding m fl_nat_exact[OF b(3)] by (rule add_nat_exact[OF b(7)])
  have "js_add (js_mul (fl (of_nat A)) (Fin 3600)) (js_mul (fl (of_nat B)) (Fin 60))
          = Fin (of_nat (A * 3600 + B * 60))"
    unfolding a m by (rule add_nat_exact[OF b(6)])
  then show "js_add (js_add (js_mul (fl (of_nat A)) (Fin 3600)) (js_mul (fl (of_nat B)) (Fin 60))) (fl (of_nat C))
           = Fin (of_nat (A * 3600 + B * 60 + C))"
    unfolding fl_nat_exact[OF b(3)] by (simp only: add_nat_exact[OF b(8)])
qed

lemma parse_one_exact:
  assumes "a \<noteq> []" "list_all isDigit a" "digitsVal a < 2 ^ 53"
  shows "parseTimeToSeconds a = Some (Fin (of_nat (digitsVal a)))"
  using parse_one[OF assms(1,2)] fl_nat_exact[OF assms(3)] by simp

lemma parse_two_exact:
  assumes "a \<noteq> []" "list_all isDigit a" "b \<noteq> []" "list_all isDigit b"
    and "digitsVal a * 60 + digitsVal b < 2 ^ 53"
  shows "parseTimeToSeconds (a @ CHR '':'' # b) = Some (Fin (of_nat (digitsVal a * 60 + digitsVal b)))"
proof -
  from assms(5) have "0 * 3600 + digitsVal a * 60 + digitsVal b < 2 ^ 53" by simp
  from hms_exact(2)[OF this] show ?thesis using parse_two[OF assms(1-4)] by simp
qed

lemma parse_three_exact:
  assumes "a \<noteq> []" "list_all isDigit a" "b \<noteq> []" "list_all isDigit b" "c \<noteq> []" "list_all isDigit c"
    and "digitsVal a * 3600 + digitsVal b * 60 + digitsVal c < 2 ^ 53"
  shows "parseTimeToSeconds (a @ CHR '':'' # b @ CHR '':'' # c)
         = Some (Fin (of_nat (digitsVal a * 3600 + digitsVal b * 60 + digitsVal c)))"
  using parse_three[OF assms(1-6)] hms_exact(1)[OF assms(7)] by simp

lemma pad2_digits:
  assumes "ds \<noteq> []" "list_all isDigit ds"
  shows "padStart 2 ''0'' ds \<noteq> [] \<and> list_all isDigit (padStart 2 ''0'' ds)
         \<and> digitsVal (padStart 2 ''0'' ds) = digitsVal ds"
proof (cases "2 \<le> length ds")
  case True
  then show ?thesis using assms by (simp add: padStart_def)
next
  case False
  with assms have "length ds = 1" by (cases ds) (auto simp: not_le)
  then have "padStart 2 ''0'' ds = CHR ''0'' # ds" by (simp add: padStart_def)
  then show ?thesis using assms by (simp add: isDigit_def digitsVal_def digitVal_def)
qed

lemma hms_sum: "(n::nat) div 3600 * 3600 + n mod 3600 div 60 * 60 + n mod 60 = n"
proof -
  have "n mod 3600 mod 60 = n mod 60" by (rule mod_mod_cancel) simp
  then have "n mod 3600 div 60 * 60 + n mod 60 = n mod 3600"
    using div_mult_mod_eq[of "n mod 3600" 60] by simp
  moreover have "n div 3600 * 3600 + n mod 3600 = n" by (rule div_mult_mod_eq)
  ultimately show ?thesis by linarith
qed


lemma String_nat_length2: "k < 100 \<Longrightarrow> length (padStart 2 ''0'' (String_nat k)) = 2"
proof (cases "k < 10")
  case True
  then have "String_nat k = [digitChar k]" by (subst String_nat.simps) simp
  then show ?thesis by (simp add: padStart_def)
next
  case False
  assume "k < 100"
  with False have "k div 10 < 10" by simp
  then have "String_nat (k div 10) = [digitChar (k div 10)]" by (subst String_nat.simps) simp
  with False have "String_nat k = [digitChar (k div 10), digitChar (k mod 10)]"
    by (subst String_nat.simps) simp
  then show ?thesis by (simp add: padStart_def)
qed


section \<open>Strings that convert to a number\<close>











lemma takeWhile_digits: "list_all isDigit (takeWhile isDigit s)"
  by (induction s) auto






text \<open>
  Beyond the exact range: \<open>9007199254740993\<close> converts to \<open>2^53\<close>, and \<open>1e400\<close> to
  \<open>Infinity\<close>.
\<close>

lemma Number_beyond:
  "Number ''9007199254740993'' = Fin 9007199254740992"
  "Number ''1e400'' = PosInf"
proof -
  have "digitsVal ''9007199254740993'' = 9007199254740993" by (simp add: digitsVal_def digitVal_def)
  then show "Number ''9007199254740993'' = Fin 9007199254740992"
    using Number_digits[of "''9007199254740993''"] by (simp add: isDigit_def fl_2_53_plus_1)
  have "Number ''1e400'' = fl (10 ^ 400)"
    by (simp add: Number_def trim_def isWhiteSpace_def NonDecimalIntegerLiteral_def StrDecimalLiteral_def
          StrUnsignedDecimalLiteral_def isDigit_def digitsVal_def digitVal_def ExponentPart_def
          signedDigits_def pow10_def)
  moreover have "fl (10 ^ 400) = PosInf" by (rule fl_overflow) (simp add: pow2_def)
  ultimately show "Number ''1e400'' = PosInf" by simp
qed


section \<open>Parsing timestamps\<close>














section \<open>Binary resolution\<close>

text \<open>The paths that the example host joins.\<close>

lemma example_join:
  "posixJoin [''/opt/homebrew/bin'', ''yt-dlp''] = ''/opt/homebrew/bin/yt-dlp''"
  "posixJoin [''/usr/local/bin'', ''yt-dlp''] = ''/usr/local/bin/yt-dlp''"
  "posixJoin [''/usr/bin'', ''yt-dlp''] = ''/usr/bin/yt-dlp''"
  "posixJoin [''/opt/homebrew/bin'', ''ffmpeg''] = ''/opt/homebrew/bin/ffmpeg''"
  "posixJoin [''/usr/local/bin'', ''ffmpeg''] = ''/usr/local/bin/ffmpeg''"
  "posixJoin [''/usr/bin'', ''ffmpeg''] = ''/usr/bin/ffmpeg''"
  "posixJoin [''/opt/homebrew/bin'', ''brew''] = ''/opt/homebrew/bin/brew''"
  "posixJoin [''/usr/local/bin'', ''brew''] = ''/usr/local/bin/brew''"
  "posixJoin [''/usr/bin'', ''brew''] = ''/usr/bin/brew''"
  "posixJoin [''/Users/me'', ''Downloads'', ''clipity''] = ''/Users/me/Downloads/clipity''"
  "posixJoin [''/Users/me/Downloads/clipity'', ''%(title)s.%(ext)s'']
     = ''/Users/me/Downloads/clipity/%(title)s.%(ext)s''"
  "posixJoin [''/opt/homebrew/bin/ffmpeg'', ''..''] = ''/opt/homebrew/bin''"
  by (simp_all add: posixJoin_def posixNormalize_def)

text \<open>
  Claim C7. For every binary name and every state of the file system, \<open>getBinPath\<close>
  checks \<open>/opt/homebrew/bin\<close>, \<open>/usr/local/bin\<close> and \<open>/usr/bin\<close> in this order and
  returns the joined path of the first of them in which the name exists; when it exists in
  none of the three the result is \<open>null\<close>. The function has no failing branch.
\<close>

theorem getBinPath_priority:
  "getBinPath h existsSync name =
     (if existsSync (join h [''/opt/homebrew/bin'', name]) then Some (join h [''/opt/homebrew/bin'', name])
      else if existsSync (join h [''/usr/local/bin'', name]) then Some (join h [''/usr/local/bin'', name])
      else if existsSync (join h [''/usr/bin'', name]) then Some (join h [''/usr/bin'', name])
      else None)"
  by (simp add: getBinPath_def BREW_PATHS_def Let_def)

theorem getBinPath_priority_witness:
  "getBinPath (exampleHost (quietRun [] None)) (filesAt [''/usr/bin/yt-dlp'', ''/usr/local/bin/yt-dlp''])
      ''yt-dlp'' = Some ''/usr/local/bin/yt-dlp''
   \<and> getBinPath (exampleHost (quietRun [] None)) (filesAt [''/usr/bin/yt-dlp'', ''/usr/local/bin/yt-dlp''])
      ''ffmpeg'' = None"
  using getBinPath_priority[of "exampleHost (quietRun [] None)"
          "filesAt [''/usr/bin/yt-dlp'', ''/usr/local/bin/yt-dlp'']" "''yt-dlp''"]
        getBinPath_priority[of "exampleHost (quietRun [] None)"
          "filesAt [''/usr/bin/yt-dlp'', ''/usr/local/bin/yt-dlp'']" "''ffmpeg''"]
  by (simp add: exampleHost_def filesAt_def example_join)


section \<open>Durations and timestamps\<close>

lemma String_num_nat: "k < 2 ^ 53 \<Longrightarrow> String_num shortest (Fin (of_nat k)) = String_nat k"
  by (simp add: String_num_def)

lemma formatDuration_hours:
  assumes "n < 2 ^ 53"
  shows "Math_floor (js_div (Fin (of_nat n)) (Fin 3600)) = Fin (of_nat (n div 3600))"
proof -
  have le: "n div 3600 \<le> n" by simp
  from le assms have 1: "n div 3600 < 2 ^ 53" by (rule le_less_trans)
  from assms have "(of_nat n :: rat) < 2 ^ 53"
    by (metis of_nat_less_iff of_nat_numeral of_nat_power)
  then have 2: "(of_nat n :: rat) / of_nat 3600 < pow2 (41 + 1)" by (simp add: pow2_def)
  have 3: "pow2 (41 - 53) < 1 / (of_nat 3600 :: rat)" by (simp add: pow2_def)
  from floor_div_nat[of 3600 n 41, OF _ 1 2 3] show ?thesis by simp
qed

lemma formatDuration_minutes:
  "Math_floor (js_div (js_mod (Fin (of_nat n)) (Fin 3600)) (Fin 60)) = Fin (of_nat (n mod 3600 div 60))"
proof -
  have m: "js_mod (Fin (of_nat n)) (Fin 3600) = Fin (of_nat (n mod 3600))"
    using mod_nat_exact[of 3600 n] by simp
  have lt: "n mod 3600 < 3600" by simp
  then have 1: "n mod 3600 div 60 < 2 ^ 53" by simp
  from lt have "(of_nat (n mod 3600) :: rat) < of_nat 3600" by (simp only: of_nat_less_iff)
  then have 2: "(of_nat (n mod 3600) :: rat) / of_nat 60 < pow2 (5 + 1)" by (simp add: pow2_def)
  have 3: "pow2 (5 - 53) < 1 / (of_nat 60 :: rat)" by (simp add: pow2_def)
  from floor_div_nat[of 60 "n mod 3600" 5, OF _ 1 2 3] show ?thesis unfolding m by simp
qed

lemma formatDuration_seconds:
  "Math_floor (js_mod (Fin (of_nat n)) (Fin 60)) = Fin (of_nat (n mod 60))"
  using mod_nat_exact[of 60 n] by simp

text \<open>The text produced once the hours are known to be a natural number below \<open>2^53\<close>.\<close>

lemma formatDuration_parts:
  assumes "Math_floor (js_div (Fin (of_nat n)) (Fin 3600)) = Fin (of_nat H)" "H < 2 ^ 53"
  shows "formatDuration shortest (Fin (of_nat n))
         = (if 0 < H
            then String_nat H @ '':'' @ padStart 2 ''0'' (String_nat (n mod 3600 div 60)) @ '':''
                   @ padStart 2 ''0'' (String_nat (n mod 60))
            else padStart 2 ''0'' (String_nat (n mod 3600 div 60)) @ '':''
                   @ padStart 2 ''0'' (String_nat (n mod 60)))"
proof -
  have m: "n mod 3600 div 60 < 2 ^ 53" using mod_less_divisor[of 3600 n] by simp
  have s: "n mod 60 < 2 ^ 53" using mod_less_divisor[of 60 n] by simp
  show ?thesis
    unfolding formatDuration_def Let_def assms(1) formatDuration_minutes formatDuration_seconds
      String_num_nat[OF assms(2)] String_num_nat[OF m] String_num_nat[OF s]
    by simp
qed

text \<open>
  From \<open>2^53\<close> on the hours are printed by \<open>shortest\<close>: for \<open>10^21\<close> seconds they are the
  double 277777777777777792, followed by 46 minutes and 40 seconds.
\<close>

lemma formatDuration_1e21:
  "formatDuration shortest (Fin 1000000000000000000000)
     = shortest 277777777777777792 @ '':46:40''"
proof -
  have "roundHalfEven (1000000000000000000000 / 3600 / pow2 (57 - 52)) = 8680555555555556"
    by (rule roundHalfEven_near) (simp add: pow2_def)
  from fl_eval[of "1000000000000000000000 / 3600" 57, OF _ _ _ _ _ this]
  have "fl (1000000000000000000000 / 3600) = Fin 277777777777777792" by (simp add: pow2_def)
  then have h: "Math_floor (js_div (Fin 1000000000000000000000) (Fin 3600)) = Fin 277777777777777792"
    by simp
  have m: "Math_floor (js_div (js_mod (Fin 1000000000000000000000) (Fin 3600)) (Fin 60)) = Fin 46"
    using formatDuration_minutes[of 1000000000000000000000] by simp
  have s: "Math_floor (js_mod (Fin 1000000000000000000000) (Fin 60)) = Fin 40"
    using formatDuration_seconds[of 1000000000000000000000] by simp
  have p: "String_num shortest (Fin 277777777777777792) = shortest 277777777777777792"
    by (simp add: String_num_def)
  have n: "String_num shortest (Fin 46) = ''46''" "String_num shortest (Fin 40) = ''40''"
    using String_num_nat[of 46 shortest] String_num_nat[of 40 shortest]
    by (simp_all add: String_nat.simps digitChar_def)
  show ?thesis
    unfolding formatDuration_def Let_def h m s p
    by (simp add: n padStart_def)
qed

text \<open>
  Claim C10, as stated, fails: from \<open>2^53\<close> on the sum that \<open>parseTimeToSeconds\<close> computes
  is rounded. 100000000000000016 is a double and an integer; \<open>formatDuration\<close> gives
  \<open>27777777777777:46:56\<close> for it, and parsing that text gives 100000000000000032: the hours
  give 99999999999997200 exactly, adding the 2760 seconds of the minutes gives
  99999999999999960, half way between two doubles and rounded to 99999999999999968, and
  adding the 56 seconds gives 100000000000000024, again half way and rounded to
  100000000000000032.
\<close>

theorem formatDuration_roundtrip_above_2_53:
  "fl 100000000000000016 = Fin 100000000000000016
   \<and> (\<forall>shortest. formatDuration shortest (Fin 100000000000000016) = ''27777777777777:46:56'')
   \<and> parseTimeToSeconds ''27777777777777:46:56'' = Some (Fin 100000000000000032)
   \<and> (\<forall>shortest. parseTimeToSeconds (formatDuration shortest (Fin 100000000000000016))
                   \<noteq> Some (Fin 100000000000000016))"
proof -
  have b56: "pow2 56 \<le> x \<Longrightarrow> x < pow2 57 \<Longrightarrow> binade x = 56" for x
    using binade_eq[of 56 x] by simp
  have in56: "fl (of_int k * 16) = Fin (of_int k * 16)"
    if "4503599627370496 \<le> k" "k < 9007199254740992" for k
  proof -
    let ?a = "of_int k * 16 :: rat"
    from that have k: "(4503599627370496 :: rat) \<le> of_int k" "(of_int k :: rat) < 9007199254740992"
      by (metis of_int_le_iff of_int_numeral, metis of_int_less_iff of_int_numeral)
    then have r: "pow2 56 \<le> ?a" "?a < pow2 57" by (simp_all add: pow2_def)
    then have b: "binade ?a = 56" by (rule b56)
    have "?a / pow2 (binade ?a - 52) = of_int k" unfolding b by (simp add: pow2_def)
    moreover have "0 < ?a" using k by simp
    moreover have "?a < pow2 1024" using r(2) pow2_mono[of 57 1024] by simp
    ultimately show ?thesis by (intro fl_exact[where m = k])
  qed
  have d: "fl 100000000000000016 = Fin 100000000000000016"
    using in56[of 6250000000000001] by simp
  have t1: "fl 99999999999997200 = Fin 99999999999997200"
    using in56[of 6249999999999825] by simp
  have t2: "fl 99999999999999960 = Fin 99999999999999968"
  proof -
    have "roundHalfEven (99999999999999960 / pow2 (56 - 52)) = 6249999999999998"
      using roundHalfEven_tie[of "99999999999999960 / pow2 (56 - 52)" 6249999999999997]
      by (simp add: pow2_def)
    from fl_eval[of 99999999999999960 56, OF _ _ _ _ _ this] show ?thesis by (simp add: pow2_def)
  qed
  have t3: "fl 100000000000000024 = Fin 100000000000000032"
  proof -
    have "roundHalfEven (100000000000000024 / pow2 (56 - 52)) = 6250000000000002"
      using roundHalfEven_tie[of "100000000000000024 / pow2 (56 - 52)" 6250000000000001]
      by (simp add: pow2_def)
    from fl_eval[of 100000000000000024 56, OF _ _ _ _ _ this] show ?thesis by (simp add: pow2_def)
  qed
  have h: "Math_floor (js_div (Fin (of_nat 100000000000000016)) (Fin 3600)) = Fin (of_nat 27777777777777)"
  proof -
    have "\<exists>r. fl (100000000000000016 / 3600) = Fin r \<and> \<lfloor>r\<rfloor> = 27777777777777"
      by (rule fl_floor[where k = 44]) (simp_all add: pow2_def)
    then show ?thesis by auto
  qed
  have f: "formatDuration shortest (Fin 100000000000000016) = ''27777777777777:46:56''" for shortest
    using formatDuration_parts[OF h, of shortest]
    by (simp add: String_nat.simps padStart_def digitChar_def)
  have p: "parseTimeToSeconds ''27777777777777:46:56'' = Some (Fin 100000000000000032)"
  proof -
    have v: "digitsVal ''27777777777777'' = 27777777777777" "digitsVal ''46'' = 46" "digitsVal ''56'' = 56"
      by (simp_all add: digitsVal_def digitVal_def)
    have e: "fl 27777777777777 = Fin 27777777777777" "fl 46 = Fin 46" "fl 56 = Fin 56"
      "fl 2760 = Fin 2760"
      using fl_nat_exact[of 27777777777777] fl_nat_exact[of 46] fl_nat_exact[of 56] fl_nat_exact[of 2760]
      by simp_all
    from parse_three[of "''27777777777777''" "''46''" "''56''"]
    have "parseTimeToSeconds ''27777777777777:46:56''
            = Some (js_add (js_add (js_mul (fl 27777777777777) (Fin 3600)) (js_mul (fl 46) (Fin 60))) (fl 56))"
      by (simp add: isDigit_def v)
    then show ?thesis by (simp add: e t1 t2 t3)
  qed
  from d f p show ?thesis by simp
qed

text \<open>
  Claim C10, amended. For every non-negative integer \<open>n\<close> below \<open>2^53\<close>, parsing the text
  that \<open>formatDuration\<close> produces for \<open>n\<close> gives \<open>n\<close> back; that text is \<open>h:mm:ss\<close> when
  \<open>n\<close> is at least 3600 and \<open>mm:ss\<close> otherwise, the minutes and the seconds having exactly
  two digits.
\<close>

theorem formatDuration_roundtrip:
  assumes "n < 2 ^ 53"
  shows "parseTimeToSeconds (formatDuration shortest (Fin (of_nat n))) = Some (Fin (of_nat n)) \<and>
   (\<exists>h m s. h \<noteq> [] \<and> list_all isDigit h \<and> length m = 2 \<and> list_all isDigit m
      \<and> length s = 2 \<and> list_all isDigit s
      \<and> formatDuration shortest (Fin (of_nat n))
          = (if 3600 \<le> n then h @ '':'' @ m @ '':'' @ s else m @ '':'' @ s))"
proof -
  let ?h = "String_nat (n div 3600)"
  let ?m = "padStart 2 ''0'' (String_nat (n mod 3600 div 60))"
  let ?s = "padStart 2 ''0'' (String_nat (n mod 60))"
  let ?f = "formatDuration shortest (Fin (of_nat n))"
  have h: "?h \<noteq> []" "list_all isDigit ?h" "digitsVal ?h = n div 3600"
    by (simp_all add: String_nat_nonempty String_nat_digits digitsVal_String_nat)
  have m: "?m \<noteq> []" "list_all isDigit ?m" "digitsVal ?m = n mod 3600 div 60"
    using pad2_digits[OF String_nat_nonempty String_nat_digits, of "n mod 3600 div 60"]
    by (simp_all add: digitsVal_String_nat)
  have s: "?s \<noteq> []" "list_all isDigit ?s" "digitsVal ?s = n mod 60"
    using pad2_digits[OF String_nat_nonempty String_nat_digits, of "n mod 60"]
    by (simp_all add: digitsVal_String_nat)
  have lm: "length ?m = 2" by (rule String_nat_length2) simp
  have ls: "length ?s = 2" by (rule String_nat_length2) simp
  have hz: "(0 < n div 3600) = (3600 \<le> n)" by (simp add: div_greater_zero_iff)
  have "n div 3600 \<le> n" by simp
  from this assms have hb: "n div 3600 < 2 ^ 53" by (rule le_less_trans)
  have f: "?f = (if 3600 \<le> n then ?h @ '':'' @ ?m @ '':'' @ ?s else ?m @ '':'' @ ?s)"
    using formatDuration_parts[OF formatDuration_hours[OF assms] hb, of shortest]
    unfolding hz by simp
  have rt: "parseTimeToSeconds ?f = Some (Fin (of_nat n))"
  proof (cases "3600 \<le> n")
    case True
    with f have f: "?f = ?h @ CHR '':'' # ?m @ CHR '':'' # ?s"
      by simp
    from assms have "n div 3600 * 3600 + n mod 3600 div 60 * 60 + n mod 60 < 2 ^ 53"
      by (simp only: hms_sum)
    then have "digitsVal ?h * 3600 + digitsVal ?m * 60 + digitsVal ?s < 2 ^ 53"
      by (simp only: h(3) m(3) s(3))
    from parse_three_exact[OF h(1,2) m(1,2) s(1,2) this]
    have "parseTimeToSeconds ?f
          = Some (Fin (of_nat (n div 3600 * 3600 + n mod 3600 div 60 * 60 + n mod 60)))"
      by (simp only: f h(3) m(3) s(3))
    then show ?thesis by (simp only: hms_sum)
  next
    case False
    with f have f: "?f = ?m @ CHR '':'' # ?s" by simp
    from False have "n div 3600 = 0" by simp
    with hms_sum[of n] have e: "n mod 3600 div 60 * 60 + n mod 60 = n" by simp
    from assms have "n mod 3600 div 60 * 60 + n mod 60 < 2 ^ 53" by (simp only: e)
    then have "digitsVal ?m * 60 + digitsVal ?s < 2 ^ 53" by (simp only: m(3) s(3))
    from parse_two_exact[OF m(1,2) s(1,2) this]
    have "parseTimeToSeconds ?f
          = Some (Fin (of_nat (n mod 3600 div 60 * 60 + n mod 60)))"
      by (simp only: f m(3) s(3))
    then show ?thesis by (simp only: e)
  qed
  from h(1,2) m(2) s(2) lm ls f have
    "\<exists>h m s. h \<noteq> [] \<and> list_all isDigit h \<and> length m = 2 \<and> list_all isDigit m
      \<and> length s = 2 \<and> list_all isDigit s
      \<and> ?f = (if 3600 \<le> n then h @ '':'' @ m @ '':'' @ s else m @ '':'' @ s)"
    by blast
  with rt show ?thesis by (rule conjI)
qed

theorem formatDuration_roundtrip_witness:
  "(\<forall>shortest. parseTimeToSeconds (formatDuration shortest (Fin 3723)) = Some (Fin 3723)
      \<and> formatDuration shortest (Fin 3723) = ''1:02:03''
      \<and> parseTimeToSeconds (formatDuration shortest (Fin 125)) = Some (Fin 125)
      \<and> formatDuration shortest (Fin 125) = ''02:05'')"
proof
  fix shortest :: "rat \<Rightarrow> string"
  have b: "(3723 :: nat) < 2 ^ 53" "(125 :: nat) < 2 ^ 53" by simp_all
  have e: "of_nat 3723 = (3723::rat)" "of_nat 125 = (125::rat)" by simp_all
  have c: "parseTimeToSeconds (formatDuration shortest (Fin (of_nat 3723))) = Some (Fin (of_nat 3723))"
    using formatDuration_roundtrip[OF b(1), of shortest] by (rule conjunct1)
  have d: "parseTimeToSeconds (formatDuration shortest (Fin (of_nat 125))) = Some (Fin (of_nat 125))"
    using formatDuration_roundtrip[OF b(2), of shortest] by (rule conjunct1)
  have hb: "(3723 :: nat) div 3600 < 2 ^ 53" "(125 :: nat) div 3600 < 2 ^ 53" by simp_all
  have a: "formatDuration shortest (Fin 3723) = ''1:02:03''"
    using formatDuration_parts[OF formatDuration_hours[OF b(1)] hb(1), of shortest]
    by (simp add: String_nat.simps padStart_def digitChar_def)
  have b: "formatDuration shortest (Fin 125) = ''02:05''"
    using formatDuration_parts[OF formatDuration_hours[OF b(2)] hb(2), of shortest]
    by (simp add: String_nat.simps padStart_def digitChar_def)
  from a b c d show "parseTimeToSeconds (formatDuration shortest (Fin 3723)) = Some (Fin 3723)
      \<and> formatDuration shortest (Fin 3723) = ''1:02:03''
      \<and> parseTimeToSeconds (formatDuration shortest (Fin 125)) = Some (Fin 125)
      \<and> formatDuration shortest (Fin 125) = ''02:05''"
    unfolding e by blast
qed


section \<open>The download call\<close>

lemma fold_invariant: "(\<And>x s. P s \<Longrightarrow> P (f x s)) \<Longrightarrow> P s \<Longrightarrow> P (fold f xs s)"
  by (induction xs arbitrary: s) auto

lemma download_onLine_invariant:
  assumes "\<And>pct line s. P s \<Longrightarrow> P (onProgress pct line s)" "P (snd acc)"
  shows "P (snd (download_onLine onProgress line acc))"
  using assms by (cases acc) (simp add: download_onLine_def Let_def split: option.splits)

lemma download_onData_invariant:
  assumes "\<And>pct line s. P s \<Longrightarrow> P (onProgress pct line s)" "P (snd acc)"
  shows "P (snd (download_onData onProgress chunk acc))"
  unfolding download_onData_def
  by (rule fold_invariant[where P = "\<lambda>a. P (snd a)"]) (auto intro: download_onLine_invariant assms)

lemma download_chunks_invariant:
  assumes "\<And>pct line s. P s \<Longrightarrow> P (onProgress pct line s)" "P (snd acc)"
  shows "P (snd (fold (download_onData onProgress) cs acc))"
  by (rule fold_invariant[where P = "\<lambda>a. P (snd a)"]) (auto intro: download_onData_invariant assms)

lemma downloadVideo_unfold:
  "downloadVideo h opts onProgress (w, st) =
     (if \<not> truthy (getBinPath h (fs w) ''yt-dlp'')
      then (Inl ''Error: yt-dlp not installed. Run the Setup command.'', w, st)
      else if \<not> truthy (getBinPath h (fs w) ''ffmpeg'')
      then (Inl ''Error: ffmpeg not installed. Run the Setup command.'', w, st)
      else
        let file = the (getBinPath h (fs w) ''yt-dlp'');
            args = downloadArgs h (the (getBinPath h (fs w) ''ffmpeg'')) opts;
            p = execa h file args (fs w);
            acc = fold (download_onData onProgress) (chunks p) ([], st)
        in ((case failure p of
               Some e \<Rightarrow> Inl e
             | None \<Rightarrow> Inr (if fst acc = [] then outDir h else fst acc)),
            \<lparr>fs = fs_after p, spawned = spawned w @ [(file, args)]\<rparr>, snd acc))"
  by (simp add: downloadVideo_def spawn_def Let_def split: prod.splits option.splits)

lemma downloadVideo_invariant:
  assumes "\<And>pct line s. P s \<Longrightarrow> P (onProgress pct line s)" "P st"
  shows "P (snd (snd (downloadVideo h opts onProgress (w, st))))"
proof -
  have "P (snd (fold (download_onData onProgress) cs ([], st)))" for cs
    by (rule download_chunks_invariant) (auto intro: assms)
  then show ?thesis using assms(2)
    by (simp add: downloadVideo_unfold Let_def)
qed

lemma example_getBinPath:
  "getBinPath (exampleHost run) (fs exampleWorld) ''yt-dlp'' = Some ''/opt/homebrew/bin/yt-dlp''"
  "getBinPath (exampleHost run) (fs exampleWorld) ''ffmpeg'' = Some ''/opt/homebrew/bin/ffmpeg''"
  "getBinPath (exampleHost run) (fs exampleWorld) ''brew'' = Some ''/opt/homebrew/bin/brew''"
  by (simp_all add: getBinPath_def BREW_PATHS_def exampleHost_def exampleWorld_def filesAt_def example_join)


section \<open>Validation of the trim range\<close>

text \<open>
  Two pairs of times where the rounding decides. \<open>4.1\<close> is read as the double just above
  4.1, and 60 times it is rounded to the double just below 246. 9007199254740993, which is
  \<open>2^53 + 1\<close>, is read as \<open>2^53\<close>.
\<close>

lemma fl_4_1: "fl (41 / 10) = Fin (4616189618054758 / 2 ^ 50)"
proof -
  have "roundHalfEven (41 / 10 / pow2 (2 - 52)) = 4616189618054758"
    by (rule roundHalfEven_near) (simp add: pow2_def)
  from fl_eval[of "41 / 10" 2, OF _ _ _ _ _ this] show ?thesis by (simp add: pow2_def)
qed

lemma fl_4_1_times_60: "fl (4616189618054758 / 2 ^ 50 * 60) = Fin (8655355533852671 / 2 ^ 45)"
proof -
  have "roundHalfEven (4616189618054758 / 2 ^ 50 * 60 / pow2 (7 - 52)) = 8655355533852671"
    by (rule roundHalfEven_near) (simp add: pow2_def)
  from fl_eval[of "4616189618054758 / 2 ^ 50 * 60" 7, OF _ _ _ _ _ this] show ?thesis
    by (simp add: pow2_def)
qed

lemma fl_below_246: "fl (8655355533852671 / 2 ^ 45) = Fin (8655355533852671 / 2 ^ 45)"
proof -
  have "roundHalfEven (8655355533852671 / 2 ^ 45 / pow2 (7 - 52)) = 8655355533852671"
    using roundHalfEven_int[of 8655355533852671] by (simp add: pow2_def)
  from fl_eval[of "8655355533852671 / 2 ^ 45" 7, OF _ _ _ _ _ this] show ?thesis
    by (simp add: pow2_def)
qed

lemma Number_4_1: "Number ''4.1'' = Fin (4616189618054758 / 2 ^ 50)"
proof -
  have "Number ''4.1'' = fl (41 / 10)"
    by (simp add: Number_def trim_def isWhiteSpace_def NonDecimalIntegerLiteral_def StrDecimalLiteral_def
          StrUnsignedDecimalLiteral_def isDigit_def digitsVal_def digitVal_def ExponentPart_def pow10_def)
  then show ?thesis by (simp only: fl_4_1)
qed

lemma parse_4_1_0: "parseTimeToSeconds ''4.1:0'' = Some (Fin (8655355533852671 / 2 ^ 45))"
proof -
  have t: "trim ''4.1:0'' = ''4.1:0''" by (simp add: trim_def isWhiteSpace_def)
  have s: "split CHR '':'' ''4.1:0'' = [''4.1'', ''0'']" by simp
  have z: "Number ''0'' = Fin 0"
    using Number_digits_exact[of "''0''"] by (simp add: isDigit_def digitsVal_def digitVal_def)
  have m: "js_mul (Fin (4616189618054758 / 2 ^ 50)) (Fin 60) = Fin (8655355533852671 / 2 ^ 45)"
    using fl_4_1_times_60 by simp
  have a: "js_add (Fin (8655355533852671 / 2 ^ 45)) (Fin 0) = Fin (8655355533852671 / 2 ^ 45)"
    using fl_below_246 by simp
  have "parseTimeToSeconds ''4.1:0'' = Some (js_add (js_mul (Number ''4.1'') (Fin 60)) (Number ''0''))"
    unfolding parseTimeToSeconds_def t s by (simp add: Number_4_1 z isNaN_def del: js_mul.simps js_add.simps)
  then show ?thesis by (simp only: Number_4_1 z m a)
qed

lemma parse_246: "parseTimeToSeconds ''246'' = Some (Fin 246)"
  using parse_one_exact[of "''246''"] by (simp add: isDigit_def digitsVal_def digitVal_def)

lemma parse_2_53:
  "parseTimeToSeconds ''9007199254740993'' = Some (Fin 9007199254740992)"
  "parseTimeToSeconds ''9007199254740992'' = Some (Fin 9007199254740992)"
proof -
  have v: "digitsVal ''9007199254740993'' = 9007199254740993" "digitsVal ''9007199254740992'' = 9007199254740992"
    by (simp_all add: digitsVal_def digitVal_def)
  have e: "fl 9007199254740992 = Fin 9007199254740992"
  proof -
    have "roundHalfEven (9007199254740992 / pow2 (53 - 52)) = 4503599627370496"
      using roundHalfEven_int[of 4503599627370496] by (simp add: pow2_def)
    from fl_eval[of 9007199254740992 53, OF _ _ _ _ _ this] show ?thesis by (simp add: pow2_def)
  qed
  show "parseTimeToSeconds ''9007199254740993'' = Some (Fin 9007199254740992)"
    using parse_one[of "''9007199254740993''"] by (simp add: isDigit_def v fl_2_53_plus_1)
  show "parseTimeToSeconds ''9007199254740992'' = Some (Fin 9007199254740992)"
    using parse_one[of "''9007199254740992''"] by (simp add: isDigit_def v e)
qed

text \<open>
  Claim C2. When the start time and the end time both parse to a number of seconds and
  the start is greater than or equal to the end, \<open>handleSubmit\<close> shows the failure toast
  and returns: the world is the one it started in, so \<open>downloadVideo\<close> was not called and
  no process was spawned. In every other case (the start parses strictly below the end, or
  one of the two is blank or does not parse) there is no such rejection: the world
  returned is the one that the call of \<open>downloadVideo\<close> on the submitted values leaves,
  and the toast at the end is the one of a finished or of a failed download.
\<close>

theorem handleSubmit_validation:
  "((\<exists>s e. parseTimeToSeconds (startTimeField v) = Some s \<and> parseTimeToSeconds (endTimeField v) = Some e
        \<and> js_ge s e) \<longrightarrow>
      handleSubmit h info v (w, t)
        = (w, t\<lparr>formToast := Some \<lparr>toastStyle = Failure, toastTitle = ''Invalid trim range'',
                    toastMessage = Text ''Start time must be before end time''\<rparr>\<rparr>))
   \<and> (\<not> (\<exists>s e. parseTimeToSeconds (startTimeField v) = Some s \<and> parseTimeToSeconds (endTimeField v) = Some e
        \<and> js_ge s e) \<longrightarrow>
      fst (handleSubmit h info v (w, t))
        = fst (snd (downloadVideo h
                 \<lparr>url = info_url info, startTime = emptyToUndefined (startTimeField v),
                  endTime = emptyToUndefined (endTimeField v), format = formatField v, quality = None\<rparr>
                 (formProgress info)
                 (w, t\<lparr>isDownloading := True, progress := Fin 0,
                       formToast := Some \<lparr>toastStyle = Animated, toastTitle = ''Downloading...'',
                         toastMessage = Text (take 60 (info_title info))\<rparr>\<rparr>)))
      \<and> (\<exists>ft. formToast (snd (handleSubmit h info v (w, t))) = Some ft
            \<and> (toastTitle ft = ''Download complete!'' \<or> toastTitle ft = ''Download failed'')))"
proof -
  let ?inv = "\<exists>s e. parseTimeToSeconds (startTimeField v) = Some s \<and> parseTimeToSeconds (endTimeField v) = Some e
        \<and> js_ge s e"
  let ?opts = "\<lparr>url = info_url info, startTime = emptyToUndefined (startTimeField v),
                  endTime = emptyToUndefined (endTimeField v), format = formatField v, quality = None\<rparr>"
  let ?t0 = "t\<lparr>isDownloading := True, progress := Fin 0,
                       formToast := Some \<lparr>toastStyle = Animated, toastTitle = ''Downloading...'',
                         toastMessage = Text (take 60 (info_title info))\<rparr>\<rparr>"
  let ?d = "downloadVideo h ?opts (formProgress info) (w, ?t0)"
  have iff: "invalidRange (parseTimeToSeconds (startTimeField v)) (parseTimeToSeconds (endTimeField v)) = ?inv"
    by (auto simp: invalidRange_def)
  have keep: "formToast (snd (snd ?d)) \<noteq> None"
    by (rule downloadVideo_invariant[where P = "\<lambda>s. formToast s \<noteq> None"])
       (simp_all add: formProgress_def)
  obtain r w' t' where d: "?d = (r, w', t')" by (cases ?d) auto
  with keep obtain ft where ft: "formToast t' = Some ft" by auto
  have rej: "handleSubmit h info v (w, t)
        = (w, t\<lparr>formToast := Some \<lparr>toastStyle = Failure, toastTitle = ''Invalid trim range'',
                    toastMessage = Text ''Start time must be before end time''\<rparr>\<rparr>)"
    if "invalidRange (parseTimeToSeconds (startTimeField v)) (parseTimeToSeconds (endTimeField v))"
    using that by (simp add: handleSubmit_def Let_def)
  have acc: "handleSubmit h info v (w, t)
        = (w', (case r of
                  Inr filePath \<Rightarrow>
                    t'\<lparr>formToast := map_option (\<lambda>x. x\<lparr>toastStyle := Success,
                          toastTitle := ''Download complete!'',
                          toastMessage := Text ''Saved to ~/Downloads/clipity/''\<rparr>) (formToast t'),
                       hud := Some ''Downloaded to ~/Downloads/clipity/'', popped := True\<rparr>
                | Inl e \<Rightarrow>
                    t'\<lparr>formToast := map_option (\<lambda>x. x\<lparr>toastStyle := Failure,
                          toastTitle := ''Download failed'',
                          toastMessage := Text (take 120 e)\<rparr>) (formToast t')\<rparr>)\<lparr>isDownloading := False\<rparr>)"
    if "\<not> invalidRange (parseTimeToSeconds (startTimeField v)) (parseTimeToSeconds (endTimeField v))"
    using that by (simp add: handleSubmit_def Let_def d split: sum.splits)
  have 1: "?inv \<longrightarrow> handleSubmit h info v (w, t)
        = (w, t\<lparr>formToast := Some \<lparr>toastStyle = Failure, toastTitle = ''Invalid trim range'',
                    toastMessage = Text ''Start time must be before end time''\<rparr>\<rparr>)"
    using rej iff by blast
  have 2: "\<not> ?inv \<longrightarrow> fst (handleSubmit h info v (w, t)) = fst (snd ?d)"
    using acc iff by (simp add: d)
  have 3: "\<not> ?inv \<longrightarrow> (\<exists>ft. formToast (snd (handleSubmit h info v (w, t))) = Some ft
            \<and> (toastTitle ft = ''Download complete!'' \<or> toastTitle ft = ''Download failed''))"
  proof
    assume "\<not> ?inv"
    with iff acc have a: "handleSubmit h info v (w, t)
        = (w', (case r of
                  Inr filePath \<Rightarrow>
                    t'\<lparr>formToast := map_option (\<lambda>x. x\<lparr>toastStyle := Success,
                          toastTitle := ''Download complete!'',
                          toastMessage := Text ''Saved to ~/Downloads/clipity/''\<rparr>) (formToast t'),
                       hud := Some ''Downloaded to ~/Downloads/clipity/'', popped := True\<rparr>
                | Inl e \<Rightarrow>
                    t'\<lparr>formToast := map_option (\<lambda>x. x\<lparr>toastStyle := Failure,
                          toastTitle := ''Download failed'',
                          toastMessage := Text (take 120 e)\<rparr>) (formToast t')\<rparr>)\<lparr>isDownloading := False\<rparr>)"
      by blast
    show "\<exists>ft. formToast (snd (handleSubmit h info v (w, t))) = Some ft
            \<and> (toastTitle ft = ''Download complete!'' \<or> toastTitle ft = ''Download failed'')"
      unfolding a by (cases r) (simp_all add: ft)
  qed
  from 1 2 3 show ?thesis by blast
qed

theorem handleSubmit_validation_witness:
  "handleSubmit (exampleHost (quietRun [] None)) exampleInfo
      \<lparr>startTimeField = ''00:10'', endTimeField = ''00:05'', formatField = ''video''\<rparr>
      (exampleWorld, exampleForm)
     = (exampleWorld, exampleForm\<lparr>formToast := Some \<lparr>toastStyle = Failure, toastTitle = ''Invalid trim range'',
                    toastMessage = Text ''Start time must be before end time''\<rparr>\<rparr>)
   \<and> map fst (spawned (fst (handleSubmit (exampleHost (quietRun [] None)) exampleInfo
      \<lparr>startTimeField = ''00:05'', endTimeField = ''00:10'', formatField = ''video''\<rparr>
      (exampleWorld, exampleForm)))) = [''/opt/homebrew/bin/yt-dlp'']
   \<and> map fst (spawned (fst (handleSubmit (exampleHost (quietRun [] None)) exampleInfo
      \<lparr>startTimeField = ''4.1:0'', endTimeField = ''246'', formatField = ''video''\<rparr>
      (exampleWorld, exampleForm)))) = [''/opt/homebrew/bin/yt-dlp'']
   \<and> handleSubmit (exampleHost (quietRun [] None)) exampleInfo
      \<lparr>startTimeField = ''9007199254740993'', endTimeField = ''9007199254740992'', formatField = ''video''\<rparr>
      (exampleWorld, exampleForm)
     = (exampleWorld, exampleForm\<lparr>formToast := Some \<lparr>toastStyle = Failure, toastTitle = ''Invalid trim range'',
                    toastMessage = Text ''Start time must be before end time''\<rparr>\<rparr>)"
proof -
  let ?h = "exampleHost (quietRun [] None)"
  let ?inv = "\<lambda>v. \<exists>s e. parseTimeToSeconds (startTimeField v) = Some s
      \<and> parseTimeToSeconds (endTimeField v) = Some e \<and> js_ge s e"
  let ?rejected = "(exampleWorld, exampleForm\<lparr>formToast := Some \<lparr>toastStyle = Failure,
      toastTitle = ''Invalid trim range'', toastMessage = Text ''Start time must be before end time''\<rparr>\<rparr>)"
  let ?run = "\<lambda>v. downloadVideo ?h
                 \<lparr>url = info_url exampleInfo,
                  startTime = emptyToUndefined (startTimeField v),
                  endTime = emptyToUndefined (endTimeField v),
                  format = formatField v, quality = None\<rparr>
                 (formProgress exampleInfo)
                 (exampleWorld, exampleForm\<lparr>isDownloading := True, progress := Fin 0,
                       formToast := Some \<lparr>toastStyle = Animated, toastTitle = ''Downloading...'',
                         toastMessage = Text (take 60 (info_title exampleInfo))\<rparr>\<rparr>)"
  let ?v1 = "\<lparr>startTimeField = ''00:10'', endTimeField = ''00:05'', formatField = ''video''\<rparr>"
  let ?v2 = "\<lparr>startTimeField = ''00:05'', endTimeField = ''00:10'', formatField = ''video''\<rparr>"
  let ?v3 = "\<lparr>startTimeField = ''4.1:0'', endTimeField = ''246'', formatField = ''video''\<rparr>"
  let ?v4 = "\<lparr>startTimeField = ''9007199254740993'', endTimeField = ''9007199254740992'',
               formatField = ''video''\<rparr>"
  have p5: "parseTimeToSeconds ''00:05'' = Some (Fin 5)"
    using parse_two_exact[of "''00''" "''05''"] by (simp add: isDigit_def digitsVal_def digitVal_def)
  have p10: "parseTimeToSeconds ''00:10'' = Some (Fin 10)"
    using parse_two_exact[of "''00''" "''10''"] by (simp add: isDigit_def digitsVal_def digitVal_def)
  have a1: "?inv ?v1" by (simp add: p5 p10)
  have a2: "\<not> ?inv ?v2" by (simp add: p5 p10)
  have a3: "\<not> ?inv ?v3" by (simp add: parse_4_1_0 parse_246)
  have a4: "?inv ?v4" by (simp add: parse_2_53)
  have sp: "map fst (spawned (fst (snd (?run v)))) = [''/opt/homebrew/bin/yt-dlp'']" for v
    by (simp add: downloadVideo_unfold example_getBinPath truthy_def Let_def)
       (simp add: exampleWorld_def)
  from handleSubmit_validation[of ?v1 ?h exampleInfo exampleWorld exampleForm] a1
  have 1: "handleSubmit ?h exampleInfo ?v1 (exampleWorld, exampleForm) = ?rejected"
    by blast
  from handleSubmit_validation[of ?v2 ?h exampleInfo exampleWorld exampleForm] a2
  have "fst (handleSubmit ?h exampleInfo ?v2 (exampleWorld, exampleForm)) = fst (snd (?run ?v2))"
    by blast
  then have 2: "map fst (spawned (fst (handleSubmit ?h exampleInfo ?v2 (exampleWorld, exampleForm))))
                  = [''/opt/homebrew/bin/yt-dlp'']"
    by (simp only: sp)
  from handleSubmit_validation[of ?v3 ?h exampleInfo exampleWorld exampleForm] a3
  have "fst (handleSubmit ?h exampleInfo ?v3 (exampleWorld, exampleForm)) = fst (snd (?run ?v3))"
    by blast
  then have 3: "map fst (spawned (fst (handleSubmit ?h exampleInfo ?v3 (exampleWorld, exampleForm))))
                  = [''/opt/homebrew/bin/yt-dlp'']"
    by (simp only: sp)
  from handleSubmit_validation[of ?v4 ?h exampleInfo exampleWorld exampleForm] a4
  have 4: "handleSubmit ?h exampleInfo ?v4 (exampleWorld, exampleForm) = ?rejected"
    by blast
  from 1 2 3 4 show ?thesis by blast
qed


section \<open>The section arguments\<close>





section \<open>The installer sequence\<close>

lemma install_onData_invariant:
  assumes "\<And>l s. P s \<Longrightarrow> P (onLine l s)" "P st"
  shows "P (install_onData onLine chunk st)"
  unfolding install_onData_def by (rule fold_invariant) (auto intro: assms)

lemma install_chunks_invariant:
  assumes "\<And>l s. P s \<Longrightarrow> P (onLine l s)" "P st"
  shows "P (fold (install_onData onLine) cs st)"
  by (rule fold_invariant) (auto intro: install_onData_invariant assms)

lemma installHomebrew_unfold:
  "installHomebrew h onLine (w, st) =
     (failure (execa h ''/bin/bash'' [''-c'', homebrewScript] (fs w)),
      \<lparr>fs = fs_after (execa h ''/bin/bash'' [''-c'', homebrewScript] (fs w)),
       spawned = spawned w @ [(''/bin/bash'', [''-c'', homebrewScript])]\<rparr>,
      fold (install_onData onLine) (chunks (execa h ''/bin/bash'' [''-c'', homebrewScript] (fs w))) st)"
  by (simp add: installHomebrew_def spawn_def Let_def)

lemma brewRunning_log: "brewRunning u0 u \<Longrightarrow> brewRunning u0 (upd Brew (\<lambda>s. s\<lparr>log_line := line\<rparr>) u)"
  by (auto simp: brewRunning_def upd_def)

lemma brewRunning_fold:
  "brewRunning u0 u \<Longrightarrow>
   brewRunning u0 (fold (install_onData (\<lambda>line. upd Brew (\<lambda>s. s\<lparr>log_line := line\<rparr>))) cs u)"
  by (rule install_chunks_invariant) (auto intro: brewRunning_log)

text \<open>
  Claim C5. In every run of \<open>installAll\<close> in which the fresh dependency check finds no
  Homebrew and the bootstrap install throws, \<open>installAll\<close> returns with the Homebrew
  step in state \<open>error\<close> (its log the error), with \<open>installing\<close> reset and the published
  dependency status untouched. The yt-dlp and ffmpeg steps are idle at the end and were
  never patched (every patch of the run is on the Homebrew key), and the bootstrap script
  is the only process that was run.
\<close>

theorem installAll_brew_failure:
  assumes "\<not> brew (checkDeps h (fs w))"
    and "failure (execa h ''/bin/bash'' [''-c'', homebrewScript] (fs w)) = Some e"
  shows "state (steps (snd (installAll h (w, u))) Brew) = Error
     \<and> log_line (steps (snd (installAll h (w, u))) Brew) = e
     \<and> steps (snd (installAll h (w, u))) Ytdlp = IDLE
     \<and> steps (snd (installAll h (w, u))) Ffmpeg = IDLE
     \<and> installing (snd (installAll h (w, u))) = False
     \<and> deps (snd (installAll h (w, u))) = deps u
     \<and> spawned (fst (installAll h (w, u))) = spawned w @ [(''/bin/bash'', [''-c'', homebrewScript])]
     \<and> (\<exists>ts. transitions (snd (installAll h (w, u))) = transitions u @ ts @ [(Brew, Error)]
            \<and> (\<forall>x \<in> set ts. fst x = Brew))"
proof -
  define p where "p = execa h ''/bin/bash'' [''-c'', homebrewScript] (fs w)"
  define u1 where "u1 = toastSet (\<lambda>t. t\<lparr>message := ''Installing Homebrew...''\<rparr>)
               (upd Brew (\<lambda>s. s\<lparr>state := Running, log_line := ''Installing Homebrew...''\<rparr>)
                 (u\<lparr>installing := True, steps := (\<lambda>k. IDLE),
                    toast := Some \<lparr>style = Animated, title = ''Installing dependencies...'', message = []\<rparr>\<rparr>))"
  define u2 where "u2 = fold (install_onData (\<lambda>line. upd Brew (\<lambda>s. s\<lparr>log_line := line\<rparr>))) (chunks p) u1"
  have r: "installAll h (w, u) =
       (\<lparr>fs = fs_after p, spawned = spawned w @ [(''/bin/bash'', [''-c'', homebrewScript])]\<rparr>,
        (toastSet (\<lambda>t. t\<lparr>style := Failure, title := ''Homebrew install failed'',
                 message := ''Try: /bin/bash -c '' @ [CHR 0x22] @ homebrewScript @ [CHR 0x22]\<rparr>)
               (upd Brew (\<lambda>s. s\<lparr>state := Error, log_line := e\<rparr>) u2))\<lparr>installing := False\<rparr>)"
    using assms unfolding u2_def u1_def p_def
    by (simp add: installAll_def brewBlock_def installHomebrew_unfold Let_def)
  have u1: "steps u1 Ytdlp = IDLE" "steps u1 Ffmpeg = IDLE" "deps u1 = deps u"
       "transitions u1 = transitions u @ [(Brew, Running)]"
    by (simp_all add: u1_def upd_def toastSet_def)
  have "brewRunning u1 u1" by (simp add: brewRunning_def u1_def upd_def toastSet_def)
  then have "brewRunning u1 u2" unfolding u2_def by (rule brewRunning_fold)
  then obtain ts where
    b: "steps u2 Ytdlp = IDLE" "steps u2 Ffmpeg = IDLE" "deps u2 = deps u"
       "transitions u2 = transitions u @ (Brew, Running) # ts" "\<forall>x \<in> set ts. fst x = Brew"
    using u1 by (auto simp: brewRunning_def)
  have t: "\<exists>ts. transitions ((toastSet (\<lambda>t. t\<lparr>style := Failure, title := ''Homebrew install failed'',
                 message := ''Try: /bin/bash -c '' @ [CHR 0x22] @ homebrewScript @ [CHR 0x22]\<rparr>)
               (upd Brew (\<lambda>s. s\<lparr>state := Error, log_line := e\<rparr>) u2))\<lparr>installing := False\<rparr>)
             = transitions u @ ts @ [(Brew, Error)]
            \<and> (\<forall>x \<in> set ts. fst x = Brew)"
  proof (intro exI conjI)
    show "transitions ((toastSet (\<lambda>t. t\<lparr>style := Failure, title := ''Homebrew install failed'',
                 message := ''Try: /bin/bash -c '' @ [CHR 0x22] @ homebrewScript @ [CHR 0x22]\<rparr>)
               (upd Brew (\<lambda>s. s\<lparr>state := Error, log_line := e\<rparr>) u2))\<lparr>installing := False\<rparr>)
          = transitions u @ ((Brew, Running) # ts) @ [(Brew, Error)]"
      by (simp add: upd_def toastSet_def b(4))
    show "\<forall>x \<in> set ((Brew, Running) # ts). fst x = Brew" using b(5) by simp
  qed
  show ?thesis unfolding r using b(1-3) t by (simp add: upd_def toastSet_def)
qed


theorem installAll_brew_failure_witness:
  "state (steps (snd (installAll (exampleHost (quietRun [''curl: (6) Could not resolve host''] (Some ''Error: Command failed with exit code 1'')))
       (bareWorld, exampleSetup))) Brew) = Error
   \<and> steps (snd (installAll (exampleHost (quietRun [''curl: (6) Could not resolve host''] (Some ''Error: Command failed with exit code 1'')))
       (bareWorld, exampleSetup))) Ytdlp = IDLE
   \<and> steps (snd (installAll (exampleHost (quietRun [''curl: (6) Could not resolve host''] (Some ''Error: Command failed with exit code 1'')))
       (bareWorld, exampleSetup))) Ffmpeg = IDLE
   \<and> spawned (fst (installAll (exampleHost (quietRun [''curl: (6) Could not resolve host''] (Some ''Error: Command failed with exit code 1'')))
       (bareWorld, exampleSetup))) = [(''/bin/bash'', [''-c'', homebrewScript])]"
proof -
  let ?h = "exampleHost (quietRun [''curl: (6) Could not resolve host''] (Some ''Error: Command failed with exit code 1''))"
  have a: "\<not> brew (checkDeps ?h (fs bareWorld))"
    by (simp add: checkDeps_def getBrewPath_def getBinPath_def BREW_PATHS_def truthy_def
          bareWorld_def filesAt_def)
  have b: "failure (execa ?h ''/bin/bash'' [''-c'', homebrewScript] (fs bareWorld))
           = Some ''Error: Command failed with exit code 1''"
    by (simp add: exampleHost_def quietRun_def)
  from installAll_brew_failure[OF a b, of exampleSetup] show ?thesis
    by (simp add: bareWorld_def)
qed

text \<open>
  Claim C9. In every run of \<open>installAll\<close> in which the fresh dependency check finds the
  three tools, each step is patched once, to \<open>skipped\<close>, no process is run (the world is
  the one the run started in), and the run ends by publishing the dependency status
  checked afresh on the file system at that moment, whose three presence flags are true.
\<close>

theorem installAll_all_present:
  assumes "brew (checkDeps h (fs w))" "ytdlp (checkDeps h (fs w))" "ffmpeg (checkDeps h (fs w))"
  shows "fst (installAll h (w, u)) = w
     \<and> (\<forall>k. state (steps (snd (installAll h (w, u))) k) = Skipped)
     \<and> transitions (snd (installAll h (w, u)))
         = transitions u @ [(Brew, Skipped), (Ytdlp, Skipped), (Ffmpeg, Skipped)]
     \<and> installing (snd (installAll h (w, u))) = False
     \<and> deps (snd (installAll h (w, u))) = Some (checkDeps h (fs (fst (installAll h (w, u)))))
     \<and> (\<exists>d. deps (snd (installAll h (w, u))) = Some d \<and> brew d \<and> ytdlp d \<and> ffmpeg d)"
proof -
  have r: "installAll h (w, u) =
      (w, u\<lparr>installing := False,
            steps := (\<lambda>k. IDLE)(Brew := IDLE\<lparr>state := Skipped, log_line := []\<rparr>,
                                 Ytdlp := IDLE\<lparr>state := Skipped\<rparr>, Ffmpeg := IDLE\<lparr>state := Skipped\<rparr>),
            toast := Some \<lparr>style = Success, title = ''All done!'', message = ''clipity is ready to use''\<rparr>,
            deps := Some (checkDeps h (fs w)),
            transitions := transitions u @ [(Brew, Skipped), (Ytdlp, Skipped), (Ffmpeg, Skipped)]\<rparr>)"
    using assms
    by (simp add: installAll_def brewBlock_def ytdlpBlock_def ffmpegBlock_def Let_def upd_def toastSet_def)
  have k: "state (((\<lambda>k. IDLE)(Brew := IDLE\<lparr>state := Skipped, log_line := []\<rparr>,
                                 Ytdlp := IDLE\<lparr>state := Skipped\<rparr>, Ffmpeg := IDLE\<lparr>state := Skipped\<rparr>)) k) = Skipped" for k
    by (cases k) simp_all
  show ?thesis unfolding r using assms k by simp
qed

theorem installAll_all_present_witness:
  "fst (installAll (exampleHost (quietRun [] None)) (exampleWorld, exampleSetup)) = exampleWorld
   \<and> state (steps (snd (installAll (exampleHost (quietRun [] None)) (exampleWorld, exampleSetup))) Ffmpeg) = Skipped
   \<and> transitions (snd (installAll (exampleHost (quietRun [] None)) (exampleWorld, exampleSetup)))
       = [(Brew, Skipped), (Ytdlp, Skipped), (Ffmpeg, Skipped)]
   \<and> deps (snd (installAll (exampleHost (quietRun [] None)) (exampleWorld, exampleSetup)))
       = Some \<lparr>brew = True, ytdlp = True, ffmpeg = True,
               brewPath = Some ''/opt/homebrew/bin/brew'', ytdlpPath = Some ''/opt/homebrew/bin/yt-dlp'',
               ffmpegPath = Some ''/opt/homebrew/bin/ffmpeg''\<rparr>"
proof -
  have c: "checkDeps (exampleHost (quietRun [] None)) (fs exampleWorld)
      = \<lparr>brew = True, ytdlp = True, ffmpeg = True,
               brewPath = Some ''/opt/homebrew/bin/brew'', ytdlpPath = Some ''/opt/homebrew/bin/yt-dlp'',
               ffmpegPath = Some ''/opt/homebrew/bin/ffmpeg''\<rparr>"
    by (simp add: checkDeps_def getBrewPath_def example_getBinPath truthy_def)
  have "brew (checkDeps (exampleHost (quietRun [] None)) (fs exampleWorld))"
       "ytdlp (checkDeps (exampleHost (quietRun [] None)) (fs exampleWorld))"
       "ffmpeg (checkDeps (exampleHost (quietRun [] None)) (fs exampleWorld))"
    by (simp_all add: c)
  from installAll_all_present[OF this, of exampleSetup] show ?thesis
    by (simp add: c exampleSetup_def)
qed


section \<open>Progress parsing\<close>

lemma takeWhile_digits_append:
  assumes "list_all isDigit d" "r = [] \<or> \<not> isDigit (hd r)"
  shows "takeWhile isDigit (d @ r) = d" "dropWhile isDigit (d @ r) = r"
proof -
  from assms(2) have r: "takeWhile isDigit r = []" "dropWhile isDigit r = r"
    by (cases r; simp)+
  from assms(1) have d: "\<And>x. x \<in> set d \<Longrightarrow> isDigit x" by (simp add: list_all_iff)
  show "takeWhile isDigit (d @ r) = d" using takeWhile_append2[of d isDigit r] d r by simp
  show "dropWhile isDigit (d @ r) = r" using dropWhile_append2[of d isDigit r] d r by simp
qed

lemma percent_dot_no_digit: "\<not> isDigit CHR ''%''" "\<not> isDigit CHR ''.''"
  by (simp_all add: isDigit_def)

lemma takeWhile_dropWhile_digits: "s = takeWhile isDigit s @ dropWhile isDigit s"
  by simp

lemma pctAt_Some:
  assumes "pctAt s = Some cap"
  shows "\<exists>d fr post. s = d @ fr @ CHR ''%'' # post \<and> cap = d @ fr \<and> d \<noteq> [] \<and> list_all isDigit d \<and> isFraction fr"
proof -
  let ?d1 = "takeWhile isDigit s"
  let ?r1 = "dropWhile isDigit s"
  from assms have d1: "?d1 \<noteq> []" by (auto simp: pctAt_def Let_def split: if_splits)
  have dig: "list_all isDigit ?d1" by (rule takeWhile_digits)
  from assms d1 obtain c r2 where r1: "?r1 = c # r2"
    by (cases ?r1) (simp_all add: pctAt_def Let_def)
  have s: "s = ?d1 @ c # r2" using r1 takeWhile_dropWhile_digits[of s] by simp
  show ?thesis
  proof (cases "c = CHR ''%''")
    case True
    with assms d1 r1 have "cap = ?d1" by (simp add: pctAt_def Let_def)
    with True s d1 dig show ?thesis
      by (intro exI[of _ ?d1] exI[of _ "[]"] exI[of _ r2]) (simp add: isFraction_def)
  next
    case False
    with assms d1 r1 have dot: "c = CHR ''.''" by (simp add: pctAt_def Let_def split: if_splits)
    let ?d2 = "takeWhile isDigit r2"
    from assms d1 r1 dot obtain c' r3 where r3: "dropWhile isDigit r2 = c' # r3"
      by (cases "dropWhile isDigit r2") (simp_all add: pctAt_def Let_def)
    with assms d1 r1 dot have c': "c' = CHR ''%''" and cap: "cap = ?d1 @ CHR ''.'' # ?d2"
      by (simp_all add: pctAt_def Let_def split: if_splits)
    have "r2 = ?d2 @ c' # r3" using r3 takeWhile_dropWhile_digits[of r2] by simp
    with s dot c' have "s = ?d1 @ (CHR ''.'' # ?d2) @ CHR ''%'' # r3" by simp
    moreover have "isFraction (CHR ''.'' # ?d2)" by (simp add: isFraction_def takeWhile_digits)
    ultimately show ?thesis using cap d1 dig
      by (intro exI[of _ ?d1] exI[of _ "CHR ''.'' # ?d2"] exI[of _ r3]) simp
  qed
qed

lemma pctAt_pattern:
  assumes "d \<noteq> []" "list_all isDigit d" "isFraction fr"
  shows "pctAt (d @ fr @ CHR ''%'' # post) = Some (d @ fr)"
proof (cases "fr = []")
  case True
  have "takeWhile isDigit (d @ CHR ''%'' # post) = d" "dropWhile isDigit (d @ CHR ''%'' # post) = CHR ''%'' # post"
    using takeWhile_digits_append[OF assms(2), of "CHR ''%'' # post"] by (simp_all add: percent_dot_no_digit)
  with True assms(1) show ?thesis by (simp add: pctAt_def)
next
  case False
  with assms(3) obtain d2 where fr: "fr = CHR ''.'' # d2" and d2: "list_all isDigit d2"
    by (auto simp: isFraction_def)
  have 1: "takeWhile isDigit (d @ CHR ''.'' # d2 @ CHR ''%'' # post) = d"
          "dropWhile isDigit (d @ CHR ''.'' # d2 @ CHR ''%'' # post) = CHR ''.'' # d2 @ CHR ''%'' # post"
    using takeWhile_digits_append[OF assms(2), of "CHR ''.'' # d2 @ CHR ''%'' # post"]
    by (simp_all add: percent_dot_no_digit)
  have 2: "takeWhile isDigit (d2 @ CHR ''%'' # post) = d2"
          "dropWhile isDigit (d2 @ CHR ''%'' # post) = CHR ''%'' # post"
    using takeWhile_digits_append[OF d2, of "CHR ''%'' # post"] by (simp_all add: percent_dot_no_digit)
  show ?thesis using assms(1) by (simp add: pctAt_def fr 1 2)
qed

lemma pctMatch_Some:
  "pctMatch line = Some cap \<Longrightarrow>
   \<exists>pre d fr post. line = pre @ d @ fr @ CHR ''%'' # post \<and> cap = d @ fr \<and> d \<noteq> []
      \<and> list_all isDigit d \<and> isFraction fr"
proof (induction line)
  case Nil
  then show ?case by simp
next
  case (Cons c cs)
  show ?case
  proof (cases "pctAt (c # cs)")
    case (Some cap')
    with Cons.prems have "cap' = cap" by simp
    with Some pctAt_Some[of "c # cs" cap] obtain d fr post where
      "c # cs = [] @ d @ fr @ CHR ''%'' # post \<and> cap = d @ fr \<and> d \<noteq> [] \<and> list_all isDigit d \<and> isFraction fr"
      by auto
    then show ?thesis by blast
  next
    case None
    with Cons.prems have "pctMatch cs = Some cap" by simp
    from Cons.IH[OF this] obtain pre d fr post where
      "cs = pre @ d @ fr @ CHR ''%'' # post \<and> cap = d @ fr \<and> d \<noteq> [] \<and> list_all isDigit d \<and> isFraction fr"
      by blast
    then have "c # cs = (c # pre) @ d @ fr @ CHR ''%'' # post \<and> cap = d @ fr \<and> d \<noteq> [] \<and> list_all isDigit d \<and> isFraction fr"
      by simp
    then show ?thesis by blast
  qed
qed

lemma pctMatch_append: "pctAt s \<noteq> None \<Longrightarrow> pctMatch (pre @ s) \<noteq> None"
proof (induction pre)
  case Nil
  then show ?case by (cases s) (auto simp: pctAt_def)
next
  case (Cons c pre)
  then show ?case by (cases "pctAt (c # pre @ s)") auto
qed

lemma hasPercentage_iff: "hasPercentage line \<longleftrightarrow> pctMatch line \<noteq> None"
proof
  assume "hasPercentage line"
  then obtain pre d fr post where
    l: "line = pre @ d @ fr @ CHR ''%'' # post" and d: "d \<noteq> []" "list_all isDigit d" "isFraction fr"
    by (auto simp: hasPercentage_def)
  from pctAt_pattern[OF d, of post] have "pctAt (d @ fr @ CHR ''%'' # post) \<noteq> None" by simp
  then show "pctMatch line \<noteq> None" unfolding l by (rule pctMatch_append)
next
  assume "pctMatch line \<noteq> None"
  then obtain cap where "pctMatch line = Some cap" by auto
  from pctMatch_Some[OF this] show "hasPercentage line" by (auto simp: hasPercentage_def)
qed


lemma digit_not_sign: "isDigit c \<Longrightarrow> c \<noteq> CHR ''-'' \<and> c \<noteq> CHR ''+'' \<and> c \<noteq> CHR ''I''"
  by (auto simp: isDigit_def)

lemma parseFloat_decimal:
  assumes "d \<noteq> []" "list_all isDigit d" "isFraction fr"
  shows "parseFloat (d @ fr) = fl (decimalValue d fr)"
proof -
  from assms obtain c r where d: "d = c # r" and c: "isDigit c" by (cases d) auto
  from c have ws: "\<not> isWhiteSpace c" by (rule isDigit_not_ws)
  note ns = digit_not_sign[OF c]
  have t: "takeSign (trimStart (d @ x)) = (False, d @ x)" for x
    using ws ns by (simp add: trimStart_def takeSign_def d)
  have i: "stripPrefix ''Infinity'' (d @ x) = None" for x using ns by (auto simp: d)
  have z: "digitsVal [] = 0" by (simp add: digitsVal_def)
  show ?thesis
  proof (cases "fr = []")
    case True
    have tw: "takeWhile isDigit d = d" "dropWhile isDigit d = []"
      using assms(2) by (simp_all add: takeWhile_all dropWhile_all)
    from True assms(1) show ?thesis
      using t[of "[]"] i[of "[]"]
      by (simp add: parseFloat_def Let_def tw z decimalValue_def exponentPrefix_def pow10_def)
  next
    case False
    with assms(3) obtain d2 where fr: "fr = CHR ''.'' # d2" and d2: "list_all isDigit d2"
      by (auto simp: isFraction_def)
    have 1: "takeWhile isDigit (d @ CHR ''.'' # d2) = d" "dropWhile isDigit (d @ CHR ''.'' # d2) = CHR ''.'' # d2"
      using takeWhile_digits_append[OF assms(2), of "CHR ''.'' # d2"] by (simp_all add: percent_dot_no_digit)
    have 2: "takeWhile isDigit d2 = d2" "dropWhile isDigit d2 = []"
      using d2 by (simp_all add: takeWhile_all dropWhile_all)
    show ?thesis using assms(1) t[of "CHR ''.'' # d2"] i[of "CHR ''.'' # d2"]
      by (simp add: parseFloat_def Let_def fr 1 2 decimalValue_def exponentPrefix_def pow10_def)
  qed
qed

lemma download_onLine_progress:
  "snd (download_onLine onProgress line (lastFile, st)) =
     (case pctMatch line of
        None \<Rightarrow> st
      | Some cap \<Rightarrow> onProgress (Math_round (parseFloat cap)) line st)"
  by (simp add: download_onLine_def Let_def split: option.splits)

lemma fl_42_5: "fl (85 / 2) = Fin (85 / 2)"
proof -
  have "roundHalfEven (85 / 2 / pow2 (5 - 52)) = 5981343255101440"
    using roundHalfEven_int[of 5981343255101440] by (simp add: pow2_def)
  from fl_eval[of "85 / 2" 5, OF _ _ _ _ _ this] show ?thesis by (simp add: pow2_def)
qed

lemma parseFloat_42_5: "Math_round (parseFloat ''42.5'') = Fin 43"
proof -
  have "parseFloat ''42.5'' = fl (85 / 2)"
    using parseFloat_decimal[of "''42''" "''.5''"]
    by (simp add: isDigit_def isFraction_def decimalValue_def digitsVal_def digitVal_def)
  then show ?thesis by (simp add: fl_42_5)
qed

lemma pctMatch_skip: "list_all (\<lambda>c. \<not> isDigit c) pre \<Longrightarrow> pctMatch (pre @ s) = pctMatch s"
  by (induction pre) (simp_all add: pctAt_def)














section \<open>Output-path recovery\<close>




lemma download_chunks_lines:
  "fold (download_onData onProgress) cs acc = fold (download_onLine onProgress) (observedLines cs) acc"
proof (induction cs arbitrary: acc)
  case Nil
  then show ?case by (simp add: observedLines_def)
next
  case (Cons c cs)
  then show ?case by (simp add: observedLines_def download_onData_def)
qed









lemma example_run:
  "failure (execa (exampleHost (quietRun out None)) file args existsSync) = None"
  "chunks (execa (exampleHost (quietRun out None)) file args existsSync) = out"
  by (simp_all add: exampleHost_def quietRun_def)

lemma example_tools:
  "truthy (getBinPath (exampleHost run) (fs exampleWorld) ''yt-dlp'')"
  "truthy (getBinPath (exampleHost run) (fs exampleWorld) ''ffmpeg'')"
  by (simp_all add: example_getBinPath truthy_def)






section \<open>Forwarding the lines of the output\<close>

lemma split_nonempty: "split sep s \<noteq> []"
  by (induction s) (auto split: list.splits)

lemma joinChar_split: "joinChar sep (split sep s) = s"
proof (induction s)
  case Nil
  then show ?case by simp
next
  case (Cons c cs)
  obtain p ps where ps: "split sep cs = p # ps" using split_nonempty[of sep cs] by (cases "split sep cs") auto
  with Cons show ?case by (cases ps) auto
qed

lemma split_pieces: "l \<in> set (split sep s) \<Longrightarrow> sep \<notin> set l"
proof (induction s arbitrary: l)
  case Nil
  then show ?case by simp
next
  case (Cons c cs)
  obtain p ps where ps: "split sep cs = p # ps" using split_nonempty[of sep cs] by (cases "split sep cs") auto
  from Cons.IH[of p] ps have p: "sep \<notin> set p" by simp
  from Cons.IH ps have r: "\<And>x. x \<in> set ps \<Longrightarrow> sep \<notin> set x" by simp
  from Cons.prems ps p r show ?case by (auto split: if_splits)
qed

lemma fold_recordLine: "fold (\<lambda>l. recordLine (f l)) ls seen = seen @ map f ls"
  by (induction ls arbitrary: seen) (simp_all add: recordLine_def)

lemma install_onData_record:
  "install_onData recordLine chunk seen = seen @ map (\<lambda>l. take 100 (trim l)) (nonEmptyLines chunk)"
  by (simp add: install_onData_def fold_recordLine)

lemma install_chunks_record:
  "fold (install_onData recordLine) cs seen = seen @ map (\<lambda>l. take 100 (trim l)) (observedLines cs)"
  by (induction cs arbitrary: seen) (simp_all add: observedLines_def install_onData_record)

lemma installHomebrew_lines:
  "snd (snd (installHomebrew h recordLine (w, []))) =
     map (\<lambda>l. take 100 (trim l)) (observedLines (chunks (execa h ''/bin/bash'' [''-c'', homebrewScript] (fs w))))"
  by (simp add: installHomebrew_unfold install_chunks_record)

lemma brewInstall_lines:
  "snd (snd (brewInstall h pkg recordLine (w, []))) =
     (if truthy (getBrewPath h (fs w))
      then map (\<lambda>l. take 100 (trim l))
             (observedLines (chunks (execa h (the (getBrewPath h (fs w))) [''install'', pkg] (fs w))))
      else [])"
  by (simp add: brewInstall_def spawn_def Let_def install_chunks_record)

lemma download_lines_record:
  "map snd (snd (fold (download_onLine recordProgress) ls acc)) = map snd (snd acc) @ filter hasPercentage ls"
proof (induction ls arbitrary: acc)
  case Nil
  then show ?case by simp
next
  case (Cons l ls)
  obtain lf st where acc: "acc = (lf, st)" by (cases acc) auto
  have "map snd (snd (download_onLine recordProgress l acc)) = map snd (snd acc) @ filter hasPercentage [l]"
    unfolding acc download_onLine_progress
    by (cases "pctMatch l") (simp_all add: hasPercentage_iff recordProgress_def)
  then show ?case by (simp add: Cons.IH)
qed

lemma downloadVideo_lines:
  assumes "truthy (getBinPath h (fs w) ''yt-dlp'')" "truthy (getBinPath h (fs w) ''ffmpeg'')"
  shows "map snd (snd (snd (downloadVideo h opts recordProgress (w, [])))) =
     filter hasPercentage (observedLines (chunks (execa h (the (getBinPath h (fs w) ''yt-dlp''))
                    (downloadArgs h (the (getBinPath h (fs w) ''ffmpeg'')) opts) (fs w))))"
  using assms
  by (simp add: downloadVideo_unfold Let_def download_chunks_lines download_lines_record)

lemma installOutput_lines:
  "observedLines installOutput = [''==> Pouring'', ''  '' @ replicate 120 CHR ''x'']"
proof -
  have a: "split CHR 0x0A (''==> Pouring'' @ CHR 0x0A # CHR 0x0A # ''  '' @ replicate 120 CHR ''x'')
        = ''==> Pouring'' # split CHR 0x0A (CHR 0x0A # ''  '' @ replicate 120 CHR ''x'')"
    by (rule split_append_sep) simp
  have b: "split CHR 0x0A (''  '' @ replicate 120 CHR ''x'') = [''  '' @ replicate 120 CHR ''x'']"
    by (rule split_no_sep) simp
  have "split CHR 0x0A (''==> Pouring'' @ CHR 0x0A # CHR 0x0A # ''  '' @ replicate 120 CHR ''x'')
        = [''==> Pouring'', [], ''  '' @ replicate 120 CHR ''x'']"
    unfolding a using b by simp
  then show ?thesis by (simp add: observedLines_def nonEmptyLines_def installOutput_def)
qed

lemma trim_indented: "trim (CHR '' '' # CHR '' '' # replicate 120 CHR ''x'') = replicate 120 CHR ''x''"
  by (simp add: trim_def isWhiteSpace_def)

text \<open>
  Claim C6, as stated, fails for the download: \<open>downloadVideo\<close> passes the line to
  \<open>onProgress\<close> as it is. A progress line of 105 characters reaches the callback with its
  105 characters.
\<close>

theorem line_forwarding_download_untruncated:
  "snd (snd (downloadVideo (exampleHost (quietRun [longProgressLine] None)) exampleOptions recordProgress
        (exampleWorld, []))) = [(Fin 50, longProgressLine)]
   \<and> length longProgressLine = 105"
proof -
  have n: "CHR 0x0A \<notin> set longProgressLine" by (simp add: longProgressLine_def)
  have ne: "longProgressLine \<noteq> []" by (simp add: longProgressLine_def)
  have o: "observedLines [longProgressLine] = [longProgressLine]"
    using ne by (simp add: observedLines_def nonEmptyLines_def split_no_sep[OF n])
  have "pctMatch longProgressLine = pctMatch ''50%''"
    unfolding longProgressLine_def
    using pctMatch_skip[of "replicate 101 CHR ''a'' @ '' ''" "''50%''"]
    by (simp add: isDigit_def list_all_iff)
  then have p: "pctMatch longProgressLine = Some ''50''" by (simp add: pctAt_def isDigit_def)
  have f: "\<lfloor>(50::rat) + 1 / 2\<rfloor> = 50" by (simp add: floor_eq_iff)
  have "parseFloat ''50'' = Fin 50"
    using parseFloat_decimal[of "''50''" "[]"] fl_nat_exact[of 50]
    by (simp add: isDigit_def isFraction_def decimalValue_def digitsVal_def digitVal_def)
  then have v: "Math_round (parseFloat ''50'') = Fin 50" by (simp only: Math_round.simps f) simp
  have "snd (snd (downloadVideo (exampleHost (quietRun [longProgressLine] None)) exampleOptions recordProgress
        (exampleWorld, []))) = snd (download_onLine recordProgress longProgressLine ([], []))"
    by (simp add: downloadVideo_unfold Let_def example_tools example_run download_chunks_lines o)
  also have "\<dots> = [(Fin 50, longProgressLine)]"
    unfolding download_onLine_progress p by (simp add: v recordProgress_def)
  finally show ?thesis by (simp add: longProgressLine_def)
qed

text \<open>
  Claim C6, amended. Every chunk is split at the newlines (the pieces hold no newline and,
  joined by newlines, give the chunk back) and the empty pieces are discarded. The two
  installers, \<open>installHomebrew\<close> and \<open>brewInstall\<close>, pass every remaining line to the line
  callback trimmed and cut to its first 100 characters, so every line that the callback
  receives has at most 100 characters. \<open>downloadVideo\<close> splits and discards in the same
  way, and passes to \<open>onProgress\<close> exactly the observed lines that contain a percentage,
  each as it is, neither trimmed nor cut.
\<close>

theorem line_forwarding:
  "joinChar CHR 0x0A (split CHR 0x0A chunk) = chunk
   \<and> (\<forall>l \<in> set (split CHR 0x0A chunk). CHR 0x0A \<notin> set l)
   \<and> install_onData recordLine chunk seen
       = seen @ map (\<lambda>l. take 100 (trim l)) (filter (\<lambda>l. l \<noteq> []) (split CHR 0x0A chunk))
   \<and> snd (snd (installHomebrew h recordLine (w, [])))
       = map (\<lambda>l. take 100 (trim l))
           (observedLines (chunks (execa h ''/bin/bash'' [''-c'', homebrewScript] (fs w))))
   \<and> (truthy (getBrewPath h (fs w)) \<longrightarrow>
        snd (snd (brewInstall h pkg recordLine (w, [])))
          = map (\<lambda>l. take 100 (trim l))
              (observedLines (chunks (execa h (the (getBrewPath h (fs w))) [''install'', pkg] (fs w)))))
   \<and> (\<forall>l \<in> set (snd (snd (installHomebrew h recordLine (w, [])))). length l \<le> 100)
   \<and> (\<forall>l \<in> set (snd (snd (brewInstall h pkg recordLine (w, [])))). length l \<le> 100)
   \<and> (truthy (getBinPath h (fs w) ''yt-dlp'') \<and> truthy (getBinPath h (fs w) ''ffmpeg'') \<longrightarrow>
        map snd (snd (snd (downloadVideo h opts recordProgress (w, []))))
          = filter hasPercentage
              (observedLines (chunks (execa h (the (getBinPath h (fs w) ''yt-dlp''))
                 (downloadArgs h (the (getBinPath h (fs w) ''ffmpeg'')) opts) (fs w)))))"
proof (intro conjI impI ballI)
  show "joinChar CHR 0x0A (split CHR 0x0A chunk) = chunk" by (rule joinChar_split)
next
  fix l assume "l \<in> set (split CHR 0x0A chunk)"
  then show "CHR 0x0A \<notin> set l" by (rule split_pieces)
next
  show "install_onData recordLine chunk seen
       = seen @ map (\<lambda>l. take 100 (trim l)) (filter (\<lambda>l. l \<noteq> []) (split CHR 0x0A chunk))"
    by (simp add: install_onData_record nonEmptyLines_def)
next
  show "snd (snd (installHomebrew h recordLine (w, [])))
       = map (\<lambda>l. take 100 (trim l))
           (observedLines (chunks (execa h ''/bin/bash'' [''-c'', homebrewScript] (fs w))))"
    by (rule installHomebrew_lines)
next
  assume "truthy (getBrewPath h (fs w))"
  then show "snd (snd (brewInstall h pkg recordLine (w, [])))
          = map (\<lambda>l. take 100 (trim l))
              (observedLines (chunks (execa h (the (getBrewPath h (fs w))) [''install'', pkg] (fs w))))"
    by (simp add: brewInstall_lines)
next
  fix l assume "l \<in> set (snd (snd (installHomebrew h recordLine (w, []))))"
  then show "length l \<le> 100" unfolding installHomebrew_lines by auto
next
  fix l assume "l \<in> set (snd (snd (brewInstall h pkg recordLine (w, []))))"
  then show "length l \<le> 100" unfolding brewInstall_lines by (auto split: if_splits)
next
  assume "truthy (getBinPath h (fs w) ''yt-dlp'') \<and> truthy (getBinPath h (fs w) ''ffmpeg'')"
  then show "map snd (snd (snd (downloadVideo h opts recordProgress (w, []))))
          = filter hasPercentage
              (observedLines (chunks (execa h (the (getBinPath h (fs w) ''yt-dlp''))
                 (downloadArgs h (the (getBinPath h (fs w) ''ffmpeg'')) opts) (fs w))))"
    using downloadVideo_lines[of h w opts] by blast
qed

theorem line_forwarding_witness:
  "snd (snd (installHomebrew (exampleHost (quietRun installOutput None)) recordLine (bareWorld, [])))
     = [''==> Pouring'', replicate 100 CHR ''x'']
   \<and> snd (snd (brewInstall (exampleHost (quietRun installOutput None)) ''ffmpeg'' recordLine (exampleWorld, [])))
     = [''==> Pouring'', replicate 100 CHR ''x'']
   \<and> map snd (snd (snd (downloadVideo (exampleHost (quietRun [longProgressLine] None)) exampleOptions
         recordProgress (exampleWorld, [])))) = [longProgressLine]"
proof -
  note t = line_forwarding[of "[]" "[]" "exampleHost (quietRun installOutput None)" bareWorld "''ffmpeg''" exampleOptions]
  note t' = line_forwarding[of "[]" "[]" "exampleHost (quietRun installOutput None)" exampleWorld "''ffmpeg''" exampleOptions]
  note t'' = line_forwarding[of "[]" "[]" "exampleHost (quietRun [longProgressLine] None)" exampleWorld "''ffmpeg''" exampleOptions]
  have tr: "trim ''==> Pouring'' = ''==> Pouring''" by (simp add: trim_def isWhiteSpace_def)
  have m: "map (\<lambda>l. take 100 (trim l)) (observedLines installOutput) = [''==> Pouring'', replicate 100 CHR ''x'']"
    unfolding installOutput_lines by (simp add: tr trim_indented)
  from t have 1: "snd (snd (installHomebrew (exampleHost (quietRun installOutput None)) recordLine (bareWorld, [])))
     = [''==> Pouring'', replicate 100 CHR ''x'']"
    by (simp add: example_run m)
  have b: "truthy (getBrewPath (exampleHost (quietRun installOutput None)) (fs exampleWorld))"
    by (simp add: getBrewPath_def example_getBinPath truthy_def)
  with t' have 2: "snd (snd (brewInstall (exampleHost (quietRun installOutput None)) ''ffmpeg'' recordLine (exampleWorld, [])))
     = [''==> Pouring'', replicate 100 CHR ''x'']"
    by (simp add: example_run m)
  have n: "CHR 0x0A \<notin> set longProgressLine" by (simp add: longProgressLine_def)
  have ne: "longProgressLine \<noteq> []" by (simp add: longProgressLine_def)
  have o: "observedLines [longProgressLine] = [longProgressLine]"
    using ne by (simp add: observedLines_def nonEmptyLines_def split_no_sep[OF n])
  have "hasPercentage longProgressLine"
    unfolding hasPercentage_def longProgressLine_def
    by (intro exI[of _ "replicate 101 CHR ''a'' @ '' ''"] exI[of _ "''50''"] exI[of _ "[]"])
       (simp add: isDigit_def isFraction_def)
  with t'' have 3: "map snd (snd (snd (downloadVideo (exampleHost (quietRun [longProgressLine] None)) exampleOptions
         recordProgress (exampleWorld, [])))) = [longProgressLine]"
    by (simp add: example_run example_tools o)
  from 1 2 3 show ?thesis by blast
qed

end
